theory Spec2Isabelle
  imports Complex_Main
begin

section \<open>JavaScript primitives used by the service\<close>

text \<open>
  Strings are lists of 8-bit characters. A JavaScript number that holds an integer is an
  \<open>int\<close> (or a \<open>nat\<close> where the source can only produce a count or a clock
  value); \<open>NaN\<close> and \<open>undefined\<close> are \<open>None\<close>.
\<close>

text \<open>White space and line terminators among the 8-bit characters.\<close>

definition isWhiteSpace :: "char \<Rightarrow> bool" where
  "isWhiteSpace c =
     (c \<in> set [CHR '' '', CHR 0x09, CHR 0x0A, CHR 0x0B, CHR 0x0C, CHR 0x0D, CHR 0xA0])"

definition trimStart :: "string \<Rightarrow> string" where
  "trimStart s = dropWhile isWhiteSpace s"

text \<open>\<^verbatim>\<open>String.prototype.trim\<close>.\<close>

definition trim :: "string \<Rightarrow> string" where
  "trim s = rev (trimStart (rev (trimStart s)))"

text \<open>\<^verbatim>\<open>str.includes(c)\<close> for a one-character needle.\<close>

definition includesChar :: "string \<Rightarrow> char \<Rightarrow> bool" where
  "includesChar s c = (c \<in> set s)"

text \<open>\<^verbatim>\<open>str.split(c)\<close>: the pieces between the occurrences of \<open>c\<close>; never empty.\<close>

fun splitOn :: "char \<Rightarrow> string \<Rightarrow> string list" where
  "splitOn c [] = [[]]"
| "splitOn c (x # xs) =
     (if x = c then [] # splitOn c xs
      else (case splitOn c xs of [] \<Rightarrow> [[x]] | p # ps \<Rightarrow> (x # p) # ps))"

text \<open>The value of a digit character: \<^verbatim>\<open>0-9\<close>, \<^verbatim>\<open>a-f\<close>, \<^verbatim>\<open>A-F\<close> by their character codes.\<close>

definition digitValue :: "char \<Rightarrow> nat option" where
  "digitValue c =
     (let n = (of_char c :: nat)
      in if 48 \<le> n \<and> n \<le> 57 then Some (n - 48)
         else if 97 \<le> n \<and> n \<le> 102 then Some (n - 87)
         else if 65 \<le> n \<and> n \<le> 70 then Some (n - 55)
         else None)"

definition isRadixDigit :: "nat \<Rightarrow> char \<Rightarrow> bool" where
  "isRadixDigit r c = (case digitValue c of None \<Rightarrow> False | Some v \<Rightarrow> v < r)"

definition hasHexPrefix :: "string \<Rightarrow> bool" where
  "hasHexPrefix s = (take 2 s = ''0x'' \<or> take 2 s = ''0X'')"

definition radixValue :: "nat \<Rightarrow> string \<Rightarrow> nat" where
  "radixValue r z = foldl (\<lambda>a c. a * r + (case digitValue c of None \<Rightarrow> 0 | Some v \<Rightarrow> v)) 0 z"

text \<open>The number of binary digits of a natural number.\<close>

fun bitLength :: "nat \<Rightarrow> nat" where
  "bitLength n = (if n = 0 then 0 else Suc (bitLength (n div 2)))"

declare bitLength.simps [simp del]

text \<open>
  A number is a double: an integer below \<open>2 ^ 53\<close> is held exactly, a larger one
  is rounded to 53 significant bits, to the nearest such value and on a tie to the one
  with an even significand. A result from \<open>2 ^ 1024\<close> on is \<open>Infinity\<close>, for
  which \<open>2 ^ 1024\<close> stands.
\<close>

definition roundToDouble :: "nat \<Rightarrow> nat" where
  "roundToDouble a =
     (if a < 2 ^ 53 then a
      else
        (let e = bitLength a - 53;
             q = a div 2 ^ e;
             r = a mod 2 ^ e;
             half = 2 ^ (e - 1);
             q' = (if half < r \<or> (r = half \<and> odd q) then q + 1 else q)
         in min (q' * 2 ^ e) (2 ^ 1024)))"

text \<open>
  \<^verbatim>\<open>parseInt(s)\<close> with no radix argument: leading white space is skipped, one sign
  is read, a \<^verbatim>\<open>0x\<close> prefix selects radix 16, and the longest run of digits is the
  value, as a number; with no digit the result is \<open>NaN\<close>.
\<close>

definition parseInt :: "string \<Rightarrow> int option" where
  "parseInt str =
     (let s = trimStart str;
          sign = (if take 1 s = ''-'' then - 1 else (1::int));
          s1 = (if take 1 s = ''-'' \<or> take 1 s = ''+'' then drop 1 s else s);
          radix = (if hasHexPrefix s1 then 16 else (10::nat));
          s2 = (if hasHexPrefix s1 then drop 2 s1 else s1);
          z = takeWhile (isRadixDigit radix) s2
      in if z = [] then None else Some (sign * int (roundToDouble (radixValue radix z))))"

definition digitChar :: "nat \<Rightarrow> char" where
  "digitChar d = ''0123456789'' ! d"

text \<open>A non-negative integer below \<open>10 ^ 21\<close> inside a template literal: its decimal digits.\<close>

fun natToString :: "nat \<Rightarrow> string" where
  "natToString n =
     (if n < 10 then [digitChar n] else natToString (n div 10) @ [digitChar (n mod 10)])"

declare natToString.simps [simp del]

definition intToString :: "int \<Rightarrow> string" where
  "intToString i = (if i < 0 then ''-'' @ natToString (nat (- i)) else natToString (nat i))"

text \<open>
  From \<open>10 ^ 21\<close> on a number is printed in exponent form, \<^verbatim>\<open>d.ddde+nn\<close> or
  \<^verbatim>\<open>de+nn\<close>, with the digits of the shortest decimal that reads back as the same
  number. Its first digit is the first digit of the number itself, unless the next
  one-digit value \<open>(d + 1) * 10 ^ n\<close> already reads back as the number.
\<close>

definition leadingDigit :: "nat \<Rightarrow> nat" where
  "leadingDigit x =
     (let p = 10 ^ (length (natToString x) - 1);
          d = x div p
      in if roundToDouble ((d + 1) * p) = x then (if d = 9 then 1 else d + 1) else d)"

text \<open>
  \<^verbatim>\<open>String(k)\<close> for a number \<open>k\<close> that holds an integer, written out as far as
  \<^verbatim>\<open>parseInt\<close> reads it: all of it below \<open>10 ^ 21\<close>, the sign and the first
  digit of the exponent form from there on (\<^verbatim>\<open>e\<close> stands for what follows the
  first digit, a point or the exponent).
\<close>

definition numberToString :: "int \<Rightarrow> string" where
  "numberToString k =
     (let x = roundToDouble (nat \<bar>k\<bar>);
          sign = (if k < 0 then ''-'' else [])
      in if x < 10 ^ 21 then sign @ natToString x
         else if 2 ^ 1024 \<le> x then sign @ ''Infinity''
         else sign @ [digitChar (leadingDigit x)] @ ''e'')"

text \<open>
  \<^verbatim>\<open>Math.ceil(a / b)\<close> on integer-valued numbers (the quotient of two integers
  below \<open>2 ^ 53\<close> is rounded by less than its distance to the next integer).
\<close>

definition mathCeilDiv :: "int \<Rightarrow> int \<Rightarrow> int" where
  "mathCeilDiv a b = \<lceil>real_of_int a / real_of_int b\<rceil>"

text \<open>\<^verbatim>\<open>arr[i]\<close>: \<open>undefined\<close> outside the array.\<close>

definition elemAt :: "'a list \<Rightarrow> int \<Rightarrow> 'a option" where
  "elemAt xs i = (if 0 \<le> i \<and> i < int (length xs) then Some (xs ! nat i) else None)"

text \<open>
  \<^verbatim>\<open>path.join\<close> (POSIX): the non-empty arguments are joined with a slash and the
  result is normalised. Normalising drops empty and \<^verbatim>\<open>.\<close> segments and lets
  \<^verbatim>\<open>..\<close> remove the segment before it; a \<^verbatim>\<open>..\<close> with nothing to remove
  stays in a relative path and is dropped from an absolute one.
\<close>

fun normalizeSegments :: "bool \<Rightarrow> string list \<Rightarrow> string list \<Rightarrow> string list" where
  "normalizeSegments allowAboveRoot res [] = res"
| "normalizeSegments allowAboveRoot res (seg # segs) =
     (if seg = [] \<or> seg = ''.'' then normalizeSegments allowAboveRoot res segs
      else if seg = ''..'' then
        (if res \<noteq> [] \<and> last res \<noteq> ''..''
         then normalizeSegments allowAboveRoot (butlast res) segs
         else if allowAboveRoot then normalizeSegments allowAboveRoot (res @ [''..'']) segs
         else normalizeSegments allowAboveRoot res segs)
      else normalizeSegments allowAboveRoot (res @ [seg]) segs)"

definition joinSegments :: "string list \<Rightarrow> string" where
  "joinSegments segs =
     (case segs of [] \<Rightarrow> [] | s # ss \<Rightarrow> foldl (\<lambda>a b. a @ ''/'' @ b) s ss)"

definition normalize :: "string \<Rightarrow> string" where
  "normalize p =
     (if p = [] then ''.''
      else
        (let isAbsolute = (hd p = CHR ''/'');
             trailingSeparator = (last p = CHR ''/'');
             body = joinSegments (normalizeSegments (\<not> isAbsolute) [] (splitOn CHR ''/'' p))
         in if body = []
            then (if isAbsolute then ''/'' else if trailingSeparator then ''./'' else ''.'')
            else (if isAbsolute then ''/'' else []) @ body
                   @ (if trailingSeparator then ''/'' else [])))"

definition joinPath :: "string \<Rightarrow> string \<Rightarrow> string" where
  "joinPath dir name = normalize (joinSegments (filter (\<lambda>a. a \<noteq> []) [dir, name]))"

text \<open>\<^verbatim>\<open>path.basename\<close>: the last segment, trailing slashes set aside.\<close>

definition basename :: "string \<Rightarrow> string" where
  "basename p =
     rev (takeWhile (\<lambda>c. c \<noteq> CHR ''/'') (dropWhile (\<lambda>c. c = CHR ''/'') (rev p)))"


section \<open>The PDF library and the file system, by their contracts\<close>

text \<open>
  A loaded PDF document is the sequence of its pages. A page is a page of some source
  document (the page content is left open) or the blank page the library makes. The file
  system maps a path to the document stored there (\<open>None\<close>: no file, or one that
  \<^verbatim>\<open>PDFDocument.load\<close> rejects).
\<close>

datatype 'p page = Page 'p | BlankPage

type_synonym 'p pdf = "'p page list"

type_synonym 'p filesystem = "string \<Rightarrow> 'p pdf option"

datatype error =
    PdfLoadError string
  | CopyPagesError
  | PageRangesRequired
  | InvalidPageRange string nat
  | InvalidPageNumber string nat
  | UnsupportedSplitType string
  | FailedToMerge error
  | FailedToSplit error
  | StatError string
  | ValidationError string
  | DuplicateKeyError string
  | ReferenceError string
  | AppError string nat
  | BadRequest string

text \<open>
  \<^verbatim>\<open>doc.copyPages(src, indices)\<close>: the pages of \<open>src\<close> at the indices, in the
  order of the indices; an index outside the source is an error.
\<close>

definition copyPages :: "'p pdf \<Rightarrow> int list \<Rightarrow> error + 'p pdf" where
  "copyPages src indices =
     (if list_all (\<lambda>i. 0 \<le> i \<and> i < int (length src)) indices
      then Inr (map (\<lambda>i. src ! nat i) indices)
      else Inl CopyPagesError)"

text \<open>
  \<^verbatim>\<open>doc.save()\<close>: the document as it is stored. A document without pages gets one
  blank page before it is written out.
\<close>

definition pdfSave :: "'p pdf \<Rightarrow> 'p pdf" where
  "pdfSave doc = (if length doc = 0 then [BlankPage] else doc)"

definition writeFile :: "'p filesystem \<Rightarrow> string \<Rightarrow> 'p pdf \<Rightarrow> 'p filesystem" where
  "writeFile fs outputPath pdfBytes = fs(outputPath \<mapsto> pdfBytes)"

section \<open>pdfService.js\<close>

record fileInfo =
  originalName :: string
  filename :: string
  path :: string
  size_f :: nat
  mimetype :: string

text \<open>The merge handler's file objects carry an \<^verbatim>\<open>order\<close> on top of the file fields.\<close>

record orderedFile = fileInfo +
  order_f :: "int option"

text \<open>The comparator key \<^verbatim>\<open>(a.order || 0)\<close>.\<close>

definition orderOrZero :: "'a orderedFile_scheme \<Rightarrow> int" where
  "orderOrZero a = (case order_f a of None \<Rightarrow> 0 | Some n \<Rightarrow> if n = 0 then 0 else n)"

text \<open>
  \<^verbatim>\<open>inputFiles.sort((a, b) => (a.order || 0) - (b.order || 0))\<close>: the comparator is
  the difference of integer keys, and \<^verbatim>\<open>Array.prototype.sort\<close> is stable, so the
  result is the stable sort by that key.
\<close>

definition sortByOrder :: "orderedFile list \<Rightarrow> orderedFile list" where
  "sortByOrder inputFiles = sort_key orderOrZero inputFiles"

text \<open>The body of the \<^verbatim>\<open>for (const file of sortedFiles)\<close> loop of \<^verbatim>\<open>mergePdfFiles\<close>.\<close>

fun mergeLoop :: "'p filesystem \<Rightarrow> orderedFile list \<Rightarrow> 'p pdf \<Rightarrow> error + 'p pdf" where
  "mergeLoop fs [] mergedPdf = Inr mergedPdf"
| "mergeLoop fs (file # files) mergedPdf =
     (case fs (path file) of
        None \<Rightarrow> Inl (PdfLoadError (path file))
      | Some pdf \<Rightarrow>
          (case copyPages pdf (map int [0..<length pdf]) of
             Inl e \<Rightarrow> Inl e
           | Inr copiedPages \<Rightarrow> mergeLoop fs files (mergedPdf @ copiedPages)))"

text \<open>
  The four \<^verbatim>\<open>outputFileName\<close> templates of the service: what distinguishes the
  outputs of one operation (\<open>outputSuffix\<close>: the merged document, a page, a range, a
  part), and the name built from the operation identifier, that suffix and the value of
  \<^verbatim>\<open>Date.now()\<close>.
\<close>

datatype outputSuffix = MergedOut | PageOut nat | RangeOut int int | PartOut nat

definition outputFileName :: "string \<Rightarrow> outputSuffix \<Rightarrow> nat \<Rightarrow> string" where
  "outputFileName operationId suffix dateNow =
     (case suffix of
        MergedOut \<Rightarrow> ''merged_'' @ operationId @ ''_'' @ natToString dateNow @ ''.pdf''
      | PageOut pageNo \<Rightarrow>
          ''split_'' @ operationId @ ''_page_'' @ natToString pageNo @ ''_''
            @ natToString dateNow @ ''.pdf''
      | RangeOut startPage endPage \<Rightarrow>
          ''split_'' @ operationId @ ''_range_'' @ intToString startPage @ ''-''
            @ intToString endPage @ ''_'' @ natToString dateNow @ ''.pdf''
      | PartOut partNo \<Rightarrow>
          ''split_'' @ operationId @ ''_part_'' @ natToString partNo @ ''_''
            @ natToString dateNow @ ''.pdf'')"

text \<open>
  \<^verbatim>\<open>mergePdfFiles(inputFiles, operationId)\<close>. \<open>processedDir\<close> is the output
  directory and \<open>dateNow\<close> the value of \<^verbatim>\<open>Date.now()\<close> when the output is named.
  The result is the output path or the error thrown, with the file system after the call.
\<close>

definition mergePdfFiles ::
  "string \<Rightarrow> nat \<Rightarrow> 'p filesystem \<Rightarrow> orderedFile list \<Rightarrow> string
     \<Rightarrow> (error + string) \<times> 'p filesystem" where
  "mergePdfFiles processedDir dateNow fs inputFiles operationId =
     (let sortedFiles = sortByOrder inputFiles
      in case mergeLoop fs sortedFiles [] of
           Inl e \<Rightarrow> (Inl (FailedToMerge e), fs)
         | Inr mergedPdf \<Rightarrow>
             (let mergedPdfBytes = pdfSave mergedPdf;
                  outputPath = joinPath processedDir (outputFileName operationId MergedOut dateNow)
              in (Inr outputPath, writeFile fs outputPath mergedPdfBytes)))"

text \<open>\<^verbatim>\<open>parsePageRange(range, totalPages)\<close>.\<close>

definition parsePageRange :: "string \<Rightarrow> nat \<Rightarrow> error + int \<times> int" where
  "parsePageRange range_s totalPages =
     (let rangeStr = trim range_s
      in if includesChar rangeStr CHR ''-'' then
           (case map (\<lambda>num. parseInt (trim num)) (splitOn CHR ''-'' rangeStr) of
              Some startPage # Some endPage # _ \<Rightarrow>
                if startPage < 1 \<or> endPage > int totalPages \<or> startPage > endPage
                then Inl (InvalidPageRange range_s totalPages)
                else Inr (startPage, endPage)
            | _ \<Rightarrow> Inl (InvalidPageRange range_s totalPages))
         else
           (case parseInt rangeStr of
              None \<Rightarrow> Inl (InvalidPageNumber range_s totalPages)
            | Some pageNum \<Rightarrow>
                if pageNum < 1 \<or> pageNum > int totalPages
                then Inl (InvalidPageNumber range_s totalPages)
                else Inr (pageNum, pageNum)))"

text \<open>
  The \<^verbatim>\<open>pageRanges\<close> of a request or of the options: an array of strings, or one
  string. \<^verbatim>\<open>pageRanges.length\<close> and \<^verbatim>\<open>pageRanges[i]\<close> count and give the
  entries of an array, and the characters of a string.
\<close>

datatype pageRangesValue = RangeArray "string list" | RangeString string

definition rangeItems :: "pageRangesValue \<Rightarrow> string list" where
  "rangeItems v = (case v of RangeArray rs \<Rightarrow> rs | RangeString s \<Rightarrow> map (\<lambda>c. [c]) s)"

record splitOptions =
  splitType :: string
  pageRanges :: pageRangesValue
  pagesPerFile :: int

text \<open>
  One iteration of each of the three loops of \<^verbatim>\<open>splitPdfFile\<close>, up to the write:
  the name and the saved content of the output, or the error thrown. \<open>dateNow k\<close> is
  the value of \<^verbatim>\<open>Date.now()\<close> in iteration \<open>k\<close>.
\<close>

definition pagesCase :: "(nat \<Rightarrow> nat) \<Rightarrow> string \<Rightarrow> 'p pdf \<Rightarrow> nat \<Rightarrow> error + string \<times> 'p pdf" where
  "pagesCase dateNow operationId pdf i =
     (case copyPages pdf [int i] of
        Inl e \<Rightarrow> Inl e
      | Inr newPdf \<Rightarrow>
          Inr (outputFileName operationId (PageOut (i + 1)) (dateNow i), pdfSave newPdf))"

definition rangeCase ::
  "(nat \<Rightarrow> nat) \<Rightarrow> string \<Rightarrow> 'p pdf \<Rightarrow> nat \<times> string \<Rightarrow> error + string \<times> 'p pdf" where
  "rangeCase dateNow operationId pdf ir =
     (case parsePageRange (snd ir) (length pdf) of
        Inl e \<Rightarrow> Inl e
      | Inr (startPage, endPage) \<Rightarrow>
          (case copyPages pdf [startPage - 1 .. endPage - 1] of
             Inl e \<Rightarrow> Inl e
           | Inr newPdf \<Rightarrow>
               Inr (outputFileName operationId (RangeOut startPage endPage) (dateNow (fst ir)),
                    pdfSave newPdf)))"

definition sizeCase ::
  "(nat \<Rightarrow> nat) \<Rightarrow> string \<Rightarrow> 'p pdf \<Rightarrow> int \<Rightarrow> nat \<Rightarrow> error + string \<times> 'p pdf" where
  "sizeCase dateNow operationId pdf validPagesPerFile fileIndex =
     (let startPage = int fileIndex * validPagesPerFile;
          endPage = min (startPage + validPagesPerFile) (int (length pdf))
      in case copyPages pdf [startPage .. endPage - 1] of
           Inl e \<Rightarrow> Inl e
         | Inr newPdf \<Rightarrow>
             Inr (outputFileName operationId (PartOut (fileIndex + 1)) (dateNow fileIndex),
                  pdfSave newPdf))"

text \<open>
  The loop itself: each iteration builds its output, writes it and pushes its path;
  a throw leaves the loop with the files written so far in place.
\<close>

fun writeOutputs ::
  "string \<Rightarrow> ('a \<Rightarrow> error + string \<times> 'p pdf) \<Rightarrow> 'a list \<Rightarrow> 'p filesystem \<Rightarrow> string list
     \<Rightarrow> (error + string list) \<times> 'p filesystem" where
  "writeOutputs processedDir body [] fs outputPaths = (Inr outputPaths, fs)"
| "writeOutputs processedDir body (x # xs) fs outputPaths =
     (case body x of
        Inl e \<Rightarrow> (Inl e, fs)
      | Inr (outputFileName_v, pdfBytes) \<Rightarrow>
          (let outputPath = joinPath processedDir outputFileName_v
           in writeOutputs processedDir body xs (writeFile fs outputPath pdfBytes)
                (outputPaths @ [outputPath])))"

text \<open>
  \<^verbatim>\<open>splitPdfFile(inputPath, operationId, options)\<close>. In the size case
  \<^verbatim>\<open>parseInt(pagesPerFile)\<close> reads the number as it is printed; on \<open>NaN\<close> the
  loop bound is \<open>NaN\<close> and the loop body never runs.
\<close>

definition splitLoop ::
  "string \<Rightarrow> (nat \<Rightarrow> nat) \<Rightarrow> 'p filesystem \<Rightarrow> 'p pdf \<Rightarrow> string \<Rightarrow> splitOptions
     \<Rightarrow> (error + string list) \<times> 'p filesystem" where
  "splitLoop processedDir dateNow fs pdf operationId options =
     (let totalPages = length pdf
      in if splitType options = ''pages'' then
           writeOutputs processedDir (pagesCase dateNow operationId pdf) [0..<totalPages] fs []
         else if splitType options = ''range'' then
           (if length (rangeItems (pageRanges options)) = 0 then (Inl PageRangesRequired, fs)
            else writeOutputs processedDir (rangeCase dateNow operationId pdf)
                   (enumerate 0 (rangeItems (pageRanges options))) fs [])
         else if splitType options = ''size'' then
           (case parseInt (numberToString (pagesPerFile options)) of
              None \<Rightarrow> (Inr [], fs)
            | Some parsed \<Rightarrow>
                (let validPagesPerFile = max 1 parsed;
                     numberOfFiles = mathCeilDiv (int totalPages) validPagesPerFile
                 in writeOutputs processedDir (sizeCase dateNow operationId pdf validPagesPerFile)
                      [0..<nat numberOfFiles] fs []))
         else (Inl (UnsupportedSplitType (splitType options)), fs))"

definition splitPdfFile ::
  "string \<Rightarrow> (nat \<Rightarrow> nat) \<Rightarrow> 'p filesystem \<Rightarrow> string \<Rightarrow> string \<Rightarrow> splitOptions
     \<Rightarrow> (error + string list) \<times> 'p filesystem" where
  "splitPdfFile processedDir dateNow fs inputPath operationId options =
     (case fs inputPath of
        None \<Rightarrow> (Inl (FailedToSplit (PdfLoadError inputPath)), fs)
      | Some pdf \<Rightarrow>
          (case splitLoop processedDir dateNow fs pdf operationId options of
             (Inl e, fs') \<Rightarrow> (Inl (FailedToSplit e), fs')
           | (Inr outputPaths, fs') \<Rightarrow> (Inr outputPaths, fs')))"

section \<open>The operation model (PdfOperation)\<close>

datatype operationType = Merge | Split | Upload

datatype status = Pending | Processing | Completed | Failed

record outputFile =
  o_filename :: string
  o_path :: string
  o_size :: nat
  downloadUrl :: string

record processing =
  startTime :: "nat option"
  endTime :: "nat option"
  duration :: "int option"
  errorMessage :: "error option"

record clientInfo =
  ipAddress :: string
  userAgent :: string

record operation =
  operationId :: string
  operationType :: operationType
  status :: status
  inputFiles :: "fileInfo list"
  outputFiles :: "outputFile list"
  mergeOrder :: "int list"
  splitOptions :: "splitOptions option"
  processing :: processing
  clientInfo :: clientInfo

text \<open>The schema's \<^verbatim>\<open>enum\<close> lists.\<close>

definition operationType_enum :: "operationType list" where
  "operationType_enum = [Merge, Split]"

definition status_enum :: "status list" where
  "status_enum = [Pending, Processing, Completed, Failed]"

text \<open>
  Schema validation, run by every \<^verbatim>\<open>save()\<close>: \<^verbatim>\<open>operationId\<close>,
  \<^verbatim>\<open>operationType\<close> and \<^verbatim>\<open>status\<close> are required, the last two within
  their \<^verbatim>\<open>enum\<close>. The result names the first path that fails.
\<close>

definition validateSchema :: "operation \<Rightarrow> string option" where
  "validateSchema doc =
     (if operationId doc = [] then Some ''operationId''
      else if operationType doc \<notin> set operationType_enum then Some ''operationType''
      else if status doc \<notin> set status_enum then Some ''status''
      else None)"

text \<open>
  The collection, keyed by \<^verbatim>\<open>operationId\<close> (its unique index). \<open>saveNew\<close> is
  \<^verbatim>\<open>save()\<close> on a document made by \<^verbatim>\<open>new PdfOperation(...)\<close> (an insert),
  \<open>save\<close> is \<^verbatim>\<open>save()\<close> on a stored document (an update).
\<close>

type_synonym registry = "string \<Rightarrow> operation option"

definition saveNew :: "registry \<Rightarrow> operation \<Rightarrow> error + registry" where
  "saveNew reg doc =
     (case validateSchema doc of
        Some p \<Rightarrow> Inl (ValidationError p)
      | None \<Rightarrow>
          (case reg (operationId doc) of
             Some _ \<Rightarrow> Inl (DuplicateKeyError (operationId doc))
           | None \<Rightarrow> Inr (reg(operationId doc \<mapsto> doc))))"

definition save :: "registry \<Rightarrow> operation \<Rightarrow> error + registry" where
  "save reg doc =
     (case validateSchema doc of
        Some p \<Rightarrow> Inl (ValidationError p)
      | None \<Rightarrow> Inr (reg(operationId doc \<mapsto> doc)))"

definition findByOperationId :: "registry \<Rightarrow> string \<Rightarrow> operation option" where
  "findByOperationId reg oid = reg oid"

text \<open>
  The three instance methods. Each mutates the document and then saves it: the result is
  the mutated document with the outcome of the save. \<open>now\<close> is \<^verbatim>\<open>new Date()\<close>.
\<close>

definition markAsProcessing :: "nat \<Rightarrow> registry \<Rightarrow> operation \<Rightarrow> operation \<times> (error + registry)" where
  "markAsProcessing now reg this =
     (let this' = this\<lparr>status := Processing,
                        processing := (processing this)\<lparr>startTime := Some now\<rparr>\<rparr>
      in (this', save reg this'))"

definition markAsCompleted ::
  "nat \<Rightarrow> registry \<Rightarrow> operation \<Rightarrow> outputFile list \<Rightarrow> operation \<times> (error + registry)" where
  "markAsCompleted now reg this outputFiles_new =
     (let this' = this\<lparr>status := Completed,
                        processing := (processing this)
                          \<lparr>endTime := Some now,
                           duration := (case startTime (processing this) of
                                          None \<Rightarrow> None
                                        | Some t \<Rightarrow> Some (int now - int t))\<rparr>,
                        outputFiles := outputFiles_new\<rparr>
      in (this', save reg this'))"

definition markAsFailed ::
  "nat \<Rightarrow> registry \<Rightarrow> operation \<Rightarrow> error \<Rightarrow> operation \<times> (error + registry)" where
  "markAsFailed now reg this message =
     (let this' = this\<lparr>status := Failed,
                        processing := (processing this)
                          \<lparr>endTime := Some now, errorMessage := Some message\<rparr>\<rparr>
      in (this', save reg this'))"

section \<open>The request validators (validation.js)\<close>

text \<open>
  A validator either passes the request on (\<open>Inr\<close>, with the body it leaves in
  \<^verbatim>\<open>req.body\<close>) or answers 400 with an error code (\<open>Inl (BadRequest code)\<close>). The
  \<^verbatim>\<open>mergeOrder\<close> of a merge request is absent or an array whose entries have been
  read as integers (\<open>None\<close>: \<open>NaN\<close>).
\<close>

definition validateMergeRequest ::
  "fileInfo list \<Rightarrow> int option list option \<Rightarrow> error + int list option" where
  "validateMergeRequest files_req mergeOrder_raw =
     (if length files_req < 2 then Inl (BadRequest ''INSUFFICIENT_FILES'')
      else
        (case mergeOrder_raw of
           None \<Rightarrow> Inr None
         | Some parsedOrder \<Rightarrow>
             if list_ex (\<lambda>index. case index of
                                    None \<Rightarrow> True
                                  | Some i \<Rightarrow> i < 0 \<or> i \<ge> int (length files_req)) parsedOrder
             then Inl (BadRequest ''INVALID_MERGE_ORDER_INDEX'')
             else if length (remdups parsedOrder) \<noteq> length parsedOrder
             then Inl (BadRequest ''DUPLICATE_INDICES'')
             else Inr (Some (List.map_filter id parsedOrder))))"

definition isDecimalDigit :: "char \<Rightarrow> bool" where
  "isDecimalDigit c = (c \<in> set ''0123456789'')"

text \<open>The pattern \<^verbatim>\<open>/^\d+(-\d+)?$/\<close>.\<close>

definition matchesRangePattern :: "string \<Rightarrow> bool" where
  "matchesRangePattern r =
     (let rest = dropWhile isDecimalDigit r
      in takeWhile isDecimalDigit r \<noteq> [] \<and>
         (rest = [] \<or>
          (take 1 rest = ''-'' \<and> drop 1 rest \<noteq> [] \<and> list_all isDecimalDigit (drop 1 rest))))"

record splitBody =
  b_splitType :: "string option"
  b_pageRanges :: "pageRangesValue option"
  b_pagesPerFile :: "int option"

record splitValue =
  v_splitType :: string
  v_pageRanges :: "pageRangesValue option"
  v_pagesPerFile :: int

text \<open>
  \<^verbatim>\<open>splitSchema.validate(req.body)\<close>: the split type is one of three words (default
  \<^verbatim>\<open>pages\<close>), \<^verbatim>\<open>pageRanges\<close> is an array whose entries match the pattern or
  one string that matches it, \<^verbatim>\<open>pagesPerFile\<close> is an integer in 1..100 (default 1).
\<close>

definition splitSchema_validate :: "splitBody \<Rightarrow> error + splitValue" where
  "splitSchema_validate body =
     (let splitType_v = (case b_splitType body of None \<Rightarrow> ''pages'' | Some t \<Rightarrow> t);
          pagesPerFile_v = (case b_pagesPerFile body of None \<Rightarrow> 1 | Some k \<Rightarrow> k)
      in if splitType_v \<notin> set [''pages'', ''range'', ''size''] then Inl (BadRequest ''VALIDATION_ERROR'')
         else if (case b_pageRanges body of
                    None \<Rightarrow> False
                  | Some (RangeArray ranges) \<Rightarrow> list_ex (\<lambda>r. \<not> matchesRangePattern r) ranges
                  | Some (RangeString r) \<Rightarrow> \<not> matchesRangePattern r)
         then Inl (BadRequest ''VALIDATION_ERROR'')
         else if pagesPerFile_v < 1 \<or> pagesPerFile_v > 100 then Inl (BadRequest ''VALIDATION_ERROR'')
         else Inr \<lparr>v_splitType = splitType_v, v_pageRanges = b_pageRanges body,
                   v_pagesPerFile = pagesPerFile_v\<rparr>)"

text \<open>
  The value check inside the loop of \<^verbatim>\<open>validateSplitRequest\<close>: a range with a
  dash whose start is not below its end (\<^verbatim>\<open>start >= end\<close>, false on \<open>NaN\<close>).
\<close>

definition startNotBelowEnd :: "string \<Rightarrow> bool" where
  "startNotBelowEnd r =
     (includesChar r CHR ''-'' \<and>
      (case map parseInt (splitOn CHR ''-'' r) of
         Some start # Some end_v # _ \<Rightarrow> start \<ge> end_v
       | _ \<Rightarrow> False))"

text \<open>The loop over the ranges in \<^verbatim>\<open>validateSplitRequest\<close>: the first rejection, if any.\<close>

fun checkRanges :: "string list \<Rightarrow> error option" where
  "checkRanges [] = None"
| "checkRanges (r # ranges) =
     (if \<not> matchesRangePattern r then Some (BadRequest ''INVALID_PAGE_RANGE_FORMAT'')
      else if startNotBelowEnd r then Some (BadRequest ''INVALID_PAGE_RANGE_VALUES'')
      else checkRanges ranges)"

text \<open>
  \<^verbatim>\<open>validateSplitRequest\<close>. \<^verbatim>\<open>!pageRanges\<close> holds for a missing value and for
  the empty string; \<^verbatim>\<open>ranges\<close> is the array itself, or the one string in an array.
\<close>

definition validateSplitRequest :: "fileInfo list \<Rightarrow> splitBody \<Rightarrow> error + splitValue" where
  "validateSplitRequest files_req body =
     (if length files_req \<noteq> 1 then Inl (BadRequest ''INVALID_FILE_COUNT'')
      else
        (case splitSchema_validate body of
           Inl e \<Rightarrow> Inl e
         | Inr value \<Rightarrow>
             if v_splitType value = ''range'' then
               (if (case v_pageRanges value of
                      None \<Rightarrow> True
                    | Some (RangeArray rs) \<Rightarrow> length rs = 0
                    | Some (RangeString s) \<Rightarrow> s = [])
                then Inl (BadRequest ''MISSING_PAGE_RANGES'')
                else
                  (let ranges = (case v_pageRanges value of
                                   Some (RangeArray rs) \<Rightarrow> rs
                                 | Some (RangeString s) \<Rightarrow> [s]
                                 | None \<Rightarrow> [])
                   in case checkRanges ranges of
                        Some e \<Rightarrow> Inl e
                      | None \<Rightarrow> Inr value))
             else Inr value))"

section \<open>The controller (pdfController.js)\<close>

record request =
  files :: "fileInfo list"
  ip :: string
  userAgentHeader :: string

text \<open>
  What the background tasks take from their surroundings: the output directory, the value
  of \<^verbatim>\<open>Date.now()\<close> when output \<open>k\<close> is named, the values of
  \<^verbatim>\<open>new Date()\<close> at the three transitions, and the byte size \<^verbatim>\<open>fs.stat\<close>
  reports for a stored document.
\<close>

record 'p env =
  env_processedDir :: string
  env_dateNow :: "nat \<Rightarrow> nat"
  env_startedAt :: nat
  env_completedAt :: nat
  env_failedAt :: nat
  env_statSize :: "'p pdf \<Rightarrow> nat"

text \<open>\<^verbatim>\<open>new PdfOperation({...})\<close> in the upload handler.\<close>

definition uploadOperation :: "string \<Rightarrow> request \<Rightarrow> operation" where
  "uploadOperation uuid req =
     \<lparr>operationId = uuid, operationType = Upload, status = Completed,
      inputFiles = files req, outputFiles = [], mergeOrder = [], splitOptions = None,
      processing = \<lparr>startTime = None, endTime = None, duration = None, errorMessage = None\<rparr>,
      clientInfo = \<lparr>ipAddress = ip req, userAgent = userAgentHeader req\<rparr>\<rparr>"

definition uploadFiles :: "string \<Rightarrow> registry \<Rightarrow> request \<Rightarrow> error + operation \<times> registry" where
  "uploadFiles uuid reg req =
     (if length (files req) = 0 then Inl (AppError ''No files uploaded'' 400)
      else
        (let operation = uploadOperation uuid req
         in case saveNew reg operation of
              Inl e \<Rightarrow> Inl e
            | Inr reg' \<Rightarrow> Inr (operation, reg')))"

text \<open>\<^verbatim>\<open>mergeOrder[index] || index\<close>: the fallback is taken on \<open>undefined\<close> and on 0.\<close>

definition orderOf :: "int list \<Rightarrow> nat \<Rightarrow> int" where
  "orderOf mergeOrder_arg index =
     (case elemAt mergeOrder_arg (int index) of
        None \<Rightarrow> int index
      | Some v \<Rightarrow> if v = 0 then int index else v)"

definition withOrder :: "int list \<Rightarrow> nat \<times> fileInfo \<Rightarrow> orderedFile" where
  "withOrder mergeOrder_arg ifile =
     \<lparr>originalName = originalName (snd ifile), filename = filename (snd ifile),
      path = path (snd ifile), size_f = size_f (snd ifile), mimetype = mimetype (snd ifile),
      order_f = Some (orderOf mergeOrder_arg (fst ifile))\<rparr>"

text \<open>\<^verbatim>\<open>new PdfOperation({...})\<close> in the merge handler.\<close>

definition mergeOperation :: "string \<Rightarrow> request \<Rightarrow> orderedFile list \<Rightarrow> int list \<Rightarrow> operation" where
  "mergeOperation uuid req inputFiles_arg mergeOrder_arg =
     \<lparr>operationId = uuid, operationType = Merge, status = Pending,
      inputFiles = map fileInfo.truncate inputFiles_arg, outputFiles = [],
      mergeOrder = (if length mergeOrder_arg > 0 then mergeOrder_arg
                    else map int [0..<length inputFiles_arg]),
      splitOptions = None,
      processing = \<lparr>startTime = None, endTime = None, duration = None, errorMessage = None\<rparr>,
      clientInfo = \<lparr>ipAddress = ip req, userAgent = userAgentHeader req\<rparr>\<rparr>"

text \<open>
  The merge handler up to the start of the background task: the stored operation, and
  the arguments it hands to \<^verbatim>\<open>processMergeOperation\<close>.
\<close>

definition mergePdfs ::
  "string \<Rightarrow> registry \<Rightarrow> request \<Rightarrow> int list option
     \<Rightarrow> error + (operation \<times> orderedFile list \<times> int list) \<times> registry" where
  "mergePdfs uuid reg req body_mergeOrder =
     (if length (files req) < 2
      then Inl (AppError ''At least 2 PDF files are required for merging'' 400)
      else
        (let mergeOrder_arg = (case body_mergeOrder of None \<Rightarrow> [] | Some m \<Rightarrow> m);
             inputFiles_arg = map (withOrder mergeOrder_arg) (enumerate 0 (files req));
             operation = mergeOperation uuid req inputFiles_arg mergeOrder_arg
         in case saveNew reg operation of
              Inl e \<Rightarrow> Inl e
            | Inr reg' \<Rightarrow> Inr ((operation, inputFiles_arg, mergeOrder_arg), reg')))"

text \<open>\<^verbatim>\<open>parseInt(pagesPerFile) || 1\<close>.\<close>

definition pagesPerFileOr1 :: "int \<Rightarrow> int" where
  "pagesPerFileOr1 k =
     (case parseInt (numberToString k) of None \<Rightarrow> 1 | Some v \<Rightarrow> if v = 0 then 1 else v)"

text \<open>
  \<^verbatim>\<open>Array.isArray(pageRanges) ? pageRanges : [pageRanges].filter(Boolean)\<close>: an
  array as it is, a string as the only entry unless it is empty.
\<close>

definition pageRangesArray :: "pageRangesValue \<Rightarrow> string list" where
  "pageRangesArray v =
     (case v of RangeArray rs \<Rightarrow> rs | RangeString s \<Rightarrow> filter (\<lambda>r. r \<noteq> []) [s])"

text \<open>\<^verbatim>\<open>new PdfOperation({...})\<close> in the split handler.\<close>

definition splitOperation :: "string \<Rightarrow> request \<Rightarrow> splitValue \<Rightarrow> operation" where
  "splitOperation uuid req body =
     \<lparr>operationId = uuid, operationType = Split, status = Pending,
      inputFiles = [hd (files req)], outputFiles = [], mergeOrder = [],
      splitOptions =
        Some \<lparr>splitType = v_splitType body,
              pageRanges =
                RangeArray (pageRangesArray
                  (case v_pageRanges body of None \<Rightarrow> RangeArray [] | Some v \<Rightarrow> v)),
              pagesPerFile = pagesPerFileOr1 (v_pagesPerFile body)\<rparr>,
      processing = \<lparr>startTime = None, endTime = None, duration = None, errorMessage = None\<rparr>,
      clientInfo = \<lparr>ipAddress = ip req, userAgent = userAgentHeader req\<rparr>\<rparr>"

text \<open>
  The split handler up to the start of the background task: the stored operation, and
  the arguments it hands to \<^verbatim>\<open>processSplitOperation\<close>. The options carry
  \<^verbatim>\<open>pageRanges\<close> as the request has it, array or string.
\<close>

definition splitPdf ::
  "string \<Rightarrow> registry \<Rightarrow> request \<Rightarrow> splitValue
     \<Rightarrow> error + (operation \<times> fileInfo \<times> splitOptions) \<times> registry" where
  "splitPdf uuid reg req body =
     (if length (files req) \<noteq> 1
      then Inl (AppError ''Exactly one PDF file is required for splitting'' 400)
      else
        (let pageRanges_arg = (case v_pageRanges body of None \<Rightarrow> RangeArray [] | Some v \<Rightarrow> v);
             inputFile = hd (files req);
             operation = splitOperation uuid req body
         in case saveNew reg operation of
              Inl e \<Rightarrow> Inl e
            | Inr reg' \<Rightarrow>
                Inr ((operation, inputFile,
                      \<lparr>splitType = v_splitType body, pageRanges = pageRanges_arg,
                       pagesPerFile = v_pagesPerFile body\<rparr>), reg')))"

text \<open>
  The background tasks. The result is the error of an unhandled rejection (\<open>None\<close>
  when the task ends normally), the successive states of the operation document (the
  state it is handed over in first), the collection and the file system.
\<close>

type_synonym 'p outcome = "error option \<times> operation list \<times> registry \<times> 'p filesystem"

text \<open>The \<^verbatim>\<open>catch\<close> block of both tasks.\<close>

definition catchBlock ::
  "'p env \<Rightarrow> registry \<Rightarrow> 'p filesystem \<Rightarrow> operation \<Rightarrow> operation list \<Rightarrow> error \<Rightarrow> 'p outcome" where
  "catchBlock env reg fs operation history e =
     (case markAsFailed (env_failedAt env) reg operation e of
        (doc, Inl e') \<Rightarrow> (Some e', history @ [doc], reg, fs)
      | (doc, Inr reg') \<Rightarrow> (None, history @ [doc], reg', fs))"

definition outputFileOf :: "'p env \<Rightarrow> string \<Rightarrow> 'p pdf \<Rightarrow> outputFile" where
  "outputFileOf env outputPath stored =
     \<lparr>o_filename = basename outputPath, o_path = outputPath, o_size = env_statSize env stored,
      downloadUrl = ''/api/pdf/download/'' @ basename outputPath\<rparr>"

text \<open>\<^verbatim>\<open>fs.stat\<close> on every output path; a missing file rejects.\<close>

fun statOutputs :: "'p env \<Rightarrow> 'p filesystem \<Rightarrow> string list \<Rightarrow> error + outputFile list" where
  "statOutputs env fs [] = Inr []"
| "statOutputs env fs (outputPath # outputPaths) =
     (case fs outputPath of
        None \<Rightarrow> Inl (StatError outputPath)
      | Some stored \<Rightarrow>
          (case statOutputs env fs outputPaths of
             Inl e \<Rightarrow> Inl e
           | Inr rest \<Rightarrow> Inr (outputFileOf env outputPath stored # rest)))"

definition processMergeOperation ::
  "'p env \<Rightarrow> registry \<Rightarrow> 'p filesystem \<Rightarrow> operation \<Rightarrow> orderedFile list \<Rightarrow> int list
     \<Rightarrow> 'p outcome" where
  "processMergeOperation env reg fs operation inputFiles_arg mergeOrder_arg =
     (case markAsProcessing (env_startedAt env) reg operation of
        (doc1, Inl e) \<Rightarrow> catchBlock env reg fs doc1 [operation, doc1] e
      | (doc1, Inr reg1) \<Rightarrow>
          (let orderedFiles =
                 (if length mergeOrder_arg > 0
                  then List.map_filter (\<lambda>index. elemAt inputFiles_arg index) mergeOrder_arg
                  else inputFiles_arg)
           in case mergePdfFiles (env_processedDir env) (env_dateNow env 0) fs orderedFiles (operationId doc1) of
                (Inl e, fs1) \<Rightarrow> catchBlock env reg1 fs1 doc1 [operation, doc1] e
              | (Inr outputPath, fs1) \<Rightarrow>
                  (case statOutputs env fs1 [outputPath] of
                     Inl e \<Rightarrow> catchBlock env reg1 fs1 doc1 [operation, doc1] e
                   | Inr outputFiles_new \<Rightarrow>
                       (case markAsCompleted (env_completedAt env) reg1 doc1 outputFiles_new of
                          (doc2, Inl e) \<Rightarrow> catchBlock env reg1 fs1 doc2 [operation, doc1, doc2] e
                        | (doc2, Inr reg2) \<Rightarrow> (None, [operation, doc1, doc2], reg2, fs1)))))"

definition processSplitOperation ::
  "'p env \<Rightarrow> registry \<Rightarrow> 'p filesystem \<Rightarrow> operation \<Rightarrow> fileInfo \<Rightarrow> splitOptions
     \<Rightarrow> 'p outcome" where
  "processSplitOperation env reg fs operation inputFile options =
     (case markAsProcessing (env_startedAt env) reg operation of
        (doc1, Inl e) \<Rightarrow> catchBlock env reg fs doc1 [operation, doc1] e
      | (doc1, Inr reg1) \<Rightarrow>
          (case splitPdfFile (env_processedDir env) (env_dateNow env) fs (path inputFile)
                  (operationId doc1) options of
             (Inl e, fs1) \<Rightarrow> catchBlock env reg1 fs1 doc1 [operation, doc1] e
           | (Inr outputPaths, fs1) \<Rightarrow>
               (case statOutputs env fs1 outputPaths of
                  Inl e \<Rightarrow> catchBlock env reg1 fs1 doc1 [operation, doc1] e
                | Inr outputFiles_new \<Rightarrow>
                    (case markAsCompleted (env_completedAt env) reg1 doc1 outputFiles_new of
                       (doc2, Inl e) \<Rightarrow> catchBlock env reg1 fs1 doc2 [operation, doc1, doc2] e
                     | (doc2, Inr reg2) \<Rightarrow> (None, [operation, doc1, doc2], reg2, fs1)))))"

text \<open>
  The routes \<^verbatim>\<open>/merge\<close> and \<^verbatim>\<open>/split\<close>: the validator, the handler, and
  the background task the handler starts, run to its end. The result is the error
  answered to the client (\<open>None\<close>: the request is accepted) and the outcome of the
  task; a request that is answered with an error starts no task, so that its outcome has
  no operation document and the collection and the file system of before the request.
\<close>

type_synonym 'p routeResult = "error option \<times> 'p outcome"

definition mergeRoute ::
  "'p env \<Rightarrow> string \<Rightarrow> registry \<Rightarrow> 'p filesystem \<Rightarrow> request \<Rightarrow> int option list option
     \<Rightarrow> 'p routeResult" where
  "mergeRoute env uuid reg fs req mergeOrder_raw =
     (case validateMergeRequest (files req) mergeOrder_raw of
        Inl e \<Rightarrow> (Some e, None, [], reg, fs)
      | Inr body_mergeOrder \<Rightarrow>
          (case mergePdfs uuid reg req body_mergeOrder of
             Inl e \<Rightarrow> (Some e, None, [], reg, fs)
           | Inr ((operation, inputFiles_arg, mergeOrder_arg), reg') \<Rightarrow>
               (None, processMergeOperation env reg' fs operation inputFiles_arg mergeOrder_arg)))"

definition splitRoute ::
  "'p env \<Rightarrow> string \<Rightarrow> registry \<Rightarrow> 'p filesystem \<Rightarrow> request \<Rightarrow> splitBody
     \<Rightarrow> 'p routeResult" where
  "splitRoute env uuid reg fs req body_raw =
     (case validateSplitRequest (files req) body_raw of
        Inl e \<Rightarrow> (Some e, None, [], reg, fs)
      | Inr body \<Rightarrow>
          (case splitPdf uuid reg req body of
             Inl e \<Rightarrow> (Some e, None, [], reg, fs)
           | Inr ((operation, inputFile, options), reg') \<Rightarrow>
               (None, processSplitOperation env reg' fs operation inputFile options)))"

text \<open>The documents stored at the output files of the last state of the operation.\<close>

definition storedOutputs :: "'p outcome \<Rightarrow> 'p pdf option list" where
  "storedOutputs outcome =
     (case outcome of
        (e, history, reg, fs) \<Rightarrow>
          (if history = [] then [] else map (\<lambda>f. fs (o_path f)) (outputFiles (last history))))"

text \<open>
  The names bound at the top level of the controller module: its imports, its two
  constants and its functions. The module is written with \<^verbatim>\<open>import\<close> and
  \<^verbatim>\<open>export\<close>; an identifier is resolved against these names and the names the
  runtime provides to such a module (\<open>globals\<close>).
\<close>

definition moduleBindings :: "string list" where
  "moduleBindings =
     [''uuidv4'', ''PdfOperation'', ''mergePdfFiles'', ''splitPdfFile'', ''asyncHandler'',
      ''AppError'', ''fs'', ''path'', ''fileURLToPath'', ''debugPdfController'',
      ''__filename'', ''__dirname'', ''uploadFiles'', ''mergePdfs'', ''splitPdf'',
      ''getOperationStatus'', ''downloadFile'', ''previewFile'', ''downloadOperationResult'',
      ''previewOperationResult'', ''getOperationHistory'', ''bulkDownload'',
      ''processMergeOperation'', ''processSplitOperation'']"

definition resolveIdentifier :: "string list \<Rightarrow> string \<Rightarrow> error + unit" where
  "resolveIdentifier globals name =
     (if name \<in> set (moduleBindings @ globals) then Inr () else Inl (ReferenceError name))"

datatype response =
    Redirect string
  | ZipArchive string "string list"

text \<open>
  \<^verbatim>\<open>bulkDownload\<close>. The archive, when one is produced, is named after the operation
  and holds the output files that exist.
\<close>

definition bulkDownload ::
  "string list \<Rightarrow> registry \<Rightarrow> 'p filesystem \<Rightarrow> string \<Rightarrow> string \<Rightarrow> error + response" where
  "bulkDownload globals reg fs processedDir_arg oid =
     (case findByOperationId reg oid of
        None \<Rightarrow> Inl (AppError ''Operation not found'' 404)
      | Some operation \<Rightarrow>
          if status operation \<noteq> Completed then Inl (AppError ''Operation not completed yet'' 400)
          else if length (outputFiles operation) = 0
          then Inl (AppError ''No output files available'' 404)
          else if length (outputFiles operation) = 1
          then Inr (Redirect (''/api/pdf/download/'' @ o_filename (hd (outputFiles operation))))
          else
            (case resolveIdentifier globals ''require'' of
               Inl e \<Rightarrow> Inl e
             | Inr _ \<Rightarrow>
                 Inr (ZipArchive (oid @ ''-files.zip'')
                        (filter (\<lambda>name. fs (joinPath processedDir_arg name) \<noteq> None)
                           (map o_filename (outputFiles operation))))))"

section \<open>Auxiliary notions\<close>

text \<open>
  After the operation identifier, every output name goes on with a tail that has no
  slash: the suffix, the time stamp and the extension.
\<close>

definition nameTail :: "outputSuffix \<Rightarrow> nat \<Rightarrow> string" where
  "nameTail suffix t =
     (case suffix of
        MergedOut \<Rightarrow> ''_'' @ natToString t @ ''.pdf''
      | PageOut n \<Rightarrow> ''_page_'' @ natToString n @ ''_'' @ natToString t @ ''.pdf''
      | RangeOut s e \<Rightarrow>
          ''_range_'' @ intToString s @ ''-'' @ intToString e @ ''_'' @ natToString t @ ''.pdf''
      | PartOut n \<Rightarrow> ''_part_'' @ natToString n @ ''_'' @ natToString t @ ''.pdf'')"

text \<open>Every name is a stem, an underscore, and the time stamp with the extension.\<close>

definition nameStem :: "string \<Rightarrow> outputSuffix \<Rightarrow> string" where
  "nameStem oid suffix =
     (case suffix of
        MergedOut \<Rightarrow> ''merged_'' @ oid
      | PageOut n \<Rightarrow> ''split_'' @ oid @ ''_page_'' @ natToString n
      | RangeOut s e \<Rightarrow> ''split_'' @ oid @ ''_range_'' @ intToString s @ ''-'' @ intToString e
      | PartOut n \<Rightarrow> ''split_'' @ oid @ ''_part_'' @ natToString n)"

text \<open>After the prefix, a split stem is the identifier, a label, an underscore and a rest without underscores.\<close>

definition suffixLabel :: "outputSuffix \<Rightarrow> string" where
  "suffixLabel suffix = (case suffix of MergedOut \<Rightarrow> [] | PageOut n \<Rightarrow> ''_page''
                   | RangeOut s e \<Rightarrow> ''_range'' | PartOut n \<Rightarrow> ''_part'')"

definition suffixRest :: "outputSuffix \<Rightarrow> string" where
  "suffixRest suffix = (case suffix of MergedOut \<Rightarrow> [] | PageOut n \<Rightarrow> natToString n
                   | RangeOut s e \<Rightarrow> intToString s @ ''-'' @ intToString e | PartOut n \<Rightarrow> natToString n)"



text \<open>The file system after a sequence of named outputs has been written in order.\<close>

definition writeAll :: "string \<Rightarrow> (string \<times> 'p pdf) list \<Rightarrow> 'p filesystem \<Rightarrow> 'p filesystem" where
  "writeAll processedDir outs fs =
     foldl (\<lambda>f np. writeFile f (joinPath processedDir (fst np)) (snd np)) fs outs"

section \<open>Sample inputs\<close>

definition sampleUpload :: "string \<Rightarrow> fileInfo" where
  "sampleUpload name =
     \<lparr>originalName = name, filename = name, path = ''uploads/'' @ name, size_f = 1,
      mimetype = ''application/pdf''\<rparr>"

definition sampleRequest :: "string list \<Rightarrow> request" where
  "sampleRequest names =
     \<lparr>files = map sampleUpload names, ip = ''127.0.0.1'', userAgentHeader = ''curl''\<rparr>"

definition sampleEnv :: "char env" where
  "sampleEnv =
     \<lparr>env_processedDir = ''processed'', env_dateNow = (\<lambda>k. 1700000000000),
      env_startedAt = 1700000000000, env_completedAt = 1700000000001,
      env_failedAt = 1700000000001, env_statSize = length\<rparr>"


section \<open>Properties\<close>

subsection \<open>Numbers as doubles\<close>

lemma bitLength_bounds: "0 < n \<Longrightarrow> 2 ^ (bitLength n - 1) \<le> n \<and> n < 2 ^ bitLength n"
proof (induction n rule: bitLength.induct)
  case (1 n)
  show ?case
  proof (cases "n div 2 = 0")
    case True
    then have n: "n = 1" using 1(2) by auto
    have "bitLength 1 = 1" by (simp add: bitLength.simps)
    then show ?thesis by (simp add: n)
  next
    case False
    then have pos: "0 < n div 2" by simp
    then have ih: "2 ^ (bitLength (n div 2) - 1) \<le> n div 2" "n div 2 < 2 ^ bitLength (n div 2)"
      using 1(1) 1(2) by simp_all
    have b: "bitLength n = Suc (bitLength (n div 2))"
      using 1(2) by (subst bitLength.simps) simp
    have ge1: "1 \<le> bitLength (n div 2)"
      using pos by (subst bitLength.simps) simp
    then have p: "(2::nat) ^ bitLength (n div 2) = 2 * 2 ^ (bitLength (n div 2) - 1)"
      by (cases "bitLength (n div 2)") simp_all
    have lo: "(2::nat) ^ (bitLength n - 1) \<le> n"
      using ih(1) p b by simp
    have "n < 2 * (n div 2 + 1)" by simp
    also have "\<dots> \<le> 2 * 2 ^ bitLength (n div 2)" using ih(2) by simp
    finally have hi: "n < 2 ^ bitLength n" using b by simp
    show ?thesis using lo hi by simp
  qed
qed

lemma bitLength_mono: "a \<le> b \<Longrightarrow> bitLength a \<le> bitLength b"
proof (rule ccontr)
  assume ab: "a \<le> b" and "\<not> bitLength a \<le> bitLength b"
  then have lt: "bitLength b < bitLength a" by simp
  then have a0: "0 < a" by (cases "a = 0") (simp_all add: bitLength.simps)
  have "b < 2 ^ bitLength b"
  proof (cases "b = 0")
    case True then show ?thesis by simp
  next
    case False then show ?thesis using bitLength_bounds[of b] by simp
  qed
  also have "(2::nat) ^ bitLength b \<le> 2 ^ (bitLength a - 1)"
    using lt by (intro power_increasing) simp_all
  also have "\<dots> \<le> a" using bitLength_bounds[OF a0] by simp
  finally show False using ab by simp
qed

lemma bitLength_large: "2 ^ 53 \<le> a \<Longrightarrow> 53 < bitLength a"
proof -
  assume a: "2 ^ 53 \<le> a"
  then have "0 < a" by (cases "a = 0") simp_all
  then have "a < 2 ^ bitLength a" using bitLength_bounds by simp
  then have "(2::nat) ^ 53 < 2 ^ bitLength a" using a by simp
  then show ?thesis by (simp only: power_strict_increasing_iff one_less_numeral_iff semiring_norm)
qed

text \<open>The significand and the rounded value of a number from \<open>2 ^ 53\<close> on.\<close>

lemma roundToDouble_small: "a < 2 ^ 53 \<Longrightarrow> roundToDouble a = a"
  by (simp add: roundToDouble_def)

lemma roundToDouble_large:
  assumes "2 ^ 53 \<le> a"
  defines "e \<equiv> bitLength a - 53"
  defines "q \<equiv> a div 2 ^ e"
  defines "q' \<equiv> (if 2 ^ (e - 1) < a mod 2 ^ e \<or> (a mod 2 ^ e = 2 ^ (e - 1) \<and> odd q) then q + 1 else q)"
  shows "roundToDouble a = min (q' * 2 ^ e) (2 ^ 1024)"
    and "2 ^ (52 + e) \<le> q * 2 ^ e" and "(q + 1) * 2 ^ e \<le> 2 ^ (53 + e)"
    and "q * 2 ^ e \<le> q' * 2 ^ e" and "q' * 2 ^ e \<le> (q + 1) * 2 ^ e"
proof -
  have na: "\<not> a < 2 ^ 53" using assms(1) by simp
  show "roundToDouble a = min (q' * 2 ^ e) (2 ^ 1024)"
    unfolding roundToDouble_def Let_def q'_def q_def e_def using na by simp
  have bl: "53 < bitLength a" using assms(1) by (rule bitLength_large)
  have a0: "0 < a" using assms(1) by (cases "a = 0") simp_all
  have b: "2 ^ (bitLength a - 1) \<le> a" "a < 2 ^ bitLength a"
    using bitLength_bounds[OF a0] by simp_all
  have ble: "bitLength a - 1 = 52 + e" "bitLength a = 53 + e" using bl by (simp_all add: e_def)
  have lo: "(2::nat) ^ 52 * 2 ^ e \<le> a" using b(1) unfolding ble by (simp add: power_add)
  have hi: "a < 2 ^ 53 * 2 ^ e" using b(2) unfolding ble by (simp add: power_add)
  have "2 ^ 52 \<le> q"
  proof -
    have "(2 ^ 52 * 2 ^ e) div 2 ^ e \<le> a div 2 ^ e" using lo by (rule div_le_mono)
    then show ?thesis by (simp add: q_def)
  qed
  then have "2 ^ 52 * 2 ^ e \<le> q * (2::nat) ^ e" by (rule mult_le_mono1)
  then show "2 ^ (52 + e) \<le> q * 2 ^ e" by (simp add: power_add)
  have "q < 2 ^ 53" unfolding q_def using hi by (simp add: less_mult_imp_div_less)
  then have "q + 1 \<le> 2 ^ 53" by simp
  then have "(q + 1) * 2 ^ e \<le> 2 ^ 53 * (2::nat) ^ e" by (rule mult_le_mono1)
  then show "(q + 1) * 2 ^ e \<le> 2 ^ (53 + e)" by (simp add: power_add)
  show "q * 2 ^ e \<le> q' * 2 ^ e" by (simp add: q'_def)
  show "q' * 2 ^ e \<le> (q + 1) * 2 ^ e" by (simp add: q'_def)
qed

lemma roundToDouble_ge: "2 ^ 53 \<le> a \<Longrightarrow> 2 ^ 53 \<le> roundToDouble a"
proof -
  assume a: "2 ^ 53 \<le> a"
  let ?e = "bitLength a - 53"
  note r = roundToDouble_large[OF a]
  have "(2::nat) ^ 53 \<le> 2 ^ (52 + ?e)"
    using bitLength_large[OF a] by (intro power_increasing) simp_all
  also have "\<dots> \<le> (a div 2 ^ ?e) * 2 ^ ?e" by (rule r(2))
  finally have 1: "2 ^ 53 \<le> (a div 2 ^ ?e) * 2 ^ ?e" .
  have 2: "(2::nat) ^ 53 \<le> 2 ^ 1024" by (intro power_increasing) simp_all
  have 3: "2 ^ 53 \<le> (if 2 ^ (?e - 1) < a mod 2 ^ ?e \<or> (a mod 2 ^ ?e = 2 ^ (?e - 1) \<and> odd (a div 2 ^ ?e))
                      then a div 2 ^ ?e + 1 else a div 2 ^ ?e) * 2 ^ ?e"
    by (rule order_trans[OF 1 r(4)])
  show ?thesis unfolding r(1) by (rule min.boundedI[OF 3 2])
qed

lemma roundToDouble_bound: "b \<le> 2 ^ 53 \<Longrightarrow> b \<le> a \<Longrightarrow> b \<le> roundToDouble a"
proof (cases "a < 2 ^ 53")
  case True
  assume "b \<le> a"
  then show ?thesis using True by (simp add: roundToDouble_small)
next
  case False
  assume "b \<le> 2 ^ 53"
  moreover have "2 ^ 53 \<le> roundToDouble a" using False by (intro roundToDouble_ge) simp
  ultimately show ?thesis by simp
qed

lemma roundToDouble_mono: "a \<le> b \<Longrightarrow> roundToDouble a \<le> roundToDouble b"
proof -
  assume ab: "a \<le> b"
  show ?thesis
  proof (cases "a < 2 ^ 53")
    case True
    then have "a \<le> 2 ^ 53" by simp
    from roundToDouble_bound[OF this ab] show ?thesis using True by (simp add: roundToDouble_small)
  next
    case False
    then have a: "2 ^ 53 \<le> a" by simp
    then have b: "2 ^ 53 \<le> b" using ab by simp
    let ?ea = "bitLength a - 53" and ?eb = "bitLength b - 53"
    let ?qa = "a div 2 ^ ?ea" and ?qb = "b div 2 ^ ?eb"
    let ?ua = "(if 2 ^ (?ea - 1) < a mod 2 ^ ?ea \<or> (a mod 2 ^ ?ea = 2 ^ (?ea - 1) \<and> odd ?qa) then ?qa + 1 else ?qa)"
    let ?ub = "(if 2 ^ (?eb - 1) < b mod 2 ^ ?eb \<or> (b mod 2 ^ ?eb = 2 ^ (?eb - 1) \<and> odd ?qb) then ?qb + 1 else ?qb)"
    note ra = roundToDouble_large[OF a] and rb = roundToDouble_large[OF b]
    have le: "?ea \<le> ?eb" using bitLength_mono[OF ab] by simp
    have core: "?ua * 2 ^ ?ea \<le> ?ub * 2 ^ ?eb"
    proof (cases "?ea < ?eb")
      case True
      have "?ua * 2 ^ ?ea \<le> (?qa + 1) * 2 ^ ?ea" by (rule ra(5))
      also have "\<dots> \<le> 2 ^ (53 + ?ea)" by (rule ra(3))
      also have "\<dots> \<le> 2 ^ (52 + ?eb)" using True by (intro power_increasing) simp_all
      also have "\<dots> \<le> ?qb * 2 ^ ?eb" by (rule rb(2))
      also have "\<dots> \<le> ?ub * 2 ^ ?eb" by (rule rb(4))
      finally show ?thesis .
    next
      case False
      then have ee: "?eb = ?ea" using le by simp
      have qq: "?qa \<le> b div 2 ^ ?ea" using ab by (rule div_le_mono)
      show ?thesis
      proof (cases "?qa < b div 2 ^ ?ea")
        case True
        have "?ua * 2 ^ ?ea \<le> (?qa + 1) * 2 ^ ?ea" by (rule ra(5))
        also have "\<dots> \<le> (b div 2 ^ ?ea) * 2 ^ ?ea" using True by (intro mult_le_mono1) simp
        also have "\<dots> = ?qb * 2 ^ ?eb" by (simp only: ee)
        also have "\<dots> \<le> ?ub * 2 ^ ?eb" by (rule rb(4))
        finally show ?thesis .
      next
        case False
        then have qe: "b div 2 ^ ?ea = ?qa" using qq by simp
        have "a = ?qa * 2 ^ ?ea + a mod 2 ^ ?ea" using div_mult_mod_eq[of a "2 ^ ?ea"] by simp
        moreover have "b = ?qa * 2 ^ ?ea + b mod 2 ^ ?ea"
          using div_mult_mod_eq[of b "2 ^ ?ea"] by (simp only: qe)
        ultimately have rr: "a mod 2 ^ ?ea \<le> b mod 2 ^ ?ea" using ab by linarith
        have "?ua \<le> (if 2 ^ (?ea - 1) < b mod 2 ^ ?ea \<or> (b mod 2 ^ ?ea = 2 ^ (?ea - 1) \<and> odd ?qa) then ?qa + 1 else ?qa)"
          using rr by auto
        then have "?ua \<le> ?ub" by (simp only: ee qe)
        then have "?ua * 2 ^ ?ea \<le> ?ub * 2 ^ ?ea" by (rule mult_le_mono1)
        then show ?thesis by (simp only: ee)
      qed
    qed
    show ?thesis unfolding ra(1) rb(1) by (rule min.mono[OF core order_refl])
  qed
qed

subsection \<open>Decimal rendering and \<^verbatim>\<open>parseInt\<close>\<close>

lemma digitChar_isDigit: "d < 10 \<Longrightarrow> digitChar d \<in> set ''0123456789''"
  unfolding digitChar_def by (rule nth_mem) simp

lemma digitValue_digitChar: "d < 10 \<Longrightarrow> digitValue (digitChar d) = Some d"
proof -
  assume "d < 10"
  then have "d \<in> {0,1,2,3,4,5,6,7,8,9}" by auto
  then show ?thesis by (auto simp: digitChar_def digitValue_def)
qed

lemma digitChar_inj: "a < 10 \<Longrightarrow> b < 10 \<Longrightarrow> digitChar a = digitChar b \<Longrightarrow> a = b"
  by (metis digitValue_digitChar option.inject)

lemma natToString_digits: "set (natToString n) \<subseteq> set ''0123456789''"
proof (induction n rule: natToString.induct)
  case (1 n)
  show ?case
  proof (cases "n < 10")
    case True
    then show ?thesis using digitChar_isDigit[of n] by (subst natToString.simps) simp
  next
    case False
    then show ?thesis using 1 digitChar_isDigit[of "n mod 10"]
      by (subst natToString.simps) simp
  qed
qed

lemma natToString_nonempty: "natToString n \<noteq> []"
  by (subst natToString.simps) simp

lemma radixValue_snoc:
  "radixValue r (z @ [c]) = radixValue r z * r + (case digitValue c of None \<Rightarrow> 0 | Some v \<Rightarrow> v)"
  by (simp add: radixValue_def)

lemma radixValue_natToString: "radixValue 10 (natToString n) = n"
proof (induction n rule: natToString.induct)
  case (1 n)
  show ?case
  proof (cases "n < 10")
    case True
    then show ?thesis
      by (subst natToString.simps) (simp add: radixValue_def digitValue_digitChar)
  next
    case False
    then show ?thesis using 1
      by (subst natToString.simps) (simp add: radixValue_snoc digitValue_digitChar)
  qed
qed

lemma natToString_inj: "natToString a = natToString b \<Longrightarrow> a = b"
  by (metis radixValue_natToString)

lemma isDigit_facts:
  assumes "c \<in> set ''0123456789''"
  shows "isRadixDigit 10 c" "\<not> isWhiteSpace c" "c \<noteq> CHR ''-''" "c \<noteq> CHR ''+''" "c \<noteq> CHR ''_''"
    "c \<noteq> CHR ''x''" "c \<noteq> CHR ''X''" "c \<noteq> CHR ''/''" "c \<noteq> CHR ''.''"
  using assms by (auto simp: isRadixDigit_def digitValue_def isWhiteSpace_def)

lemma parseInt_digits: "parseInt (natToString n) = Some (int (roundToDouble n))"
proof -
  let ?s = "natToString n"
  have dig: "\<And>c. c \<in> set ?s \<Longrightarrow> c \<in> set ''0123456789''" using natToString_digits by blast
  obtain c cs where s: "?s = c # cs" using natToString_nonempty by (cases ?s) auto
  have c: "c \<in> set ''0123456789''" using dig s by simp
  have t: "trimStart ?s = ?s" using isDigit_facts(2)[OF c] by (simp add: trimStart_def s)
  have nohex: "\<not> hasHexPrefix ?s"
  proof (cases cs)
    case Nil then show ?thesis by (simp add: hasHexPrefix_def s)
  next
    case (Cons d ds)
    then have "d \<in> set ''0123456789''" using dig s by simp
    from isDigit_facts(6,7)[OF this] show ?thesis by (simp add: hasHexPrefix_def s Cons)
  qed
  have tw: "takeWhile (isRadixDigit 10) ?s = ?s"
    using dig isDigit_facts(1) by (simp add: takeWhile_eq_all_conv)
  have sg: "take 1 ?s \<noteq> ''-''" "take 1 ?s \<noteq> ''+''"
    using isDigit_facts(3,4)[OF c] by (simp_all add: s)
  show ?thesis
    unfolding parseInt_def Let_def t using nohex sg natToString_nonempty
    by (simp add: tw radixValue_natToString)
qed

lemma parseInt_natToString: "n < 2 ^ 53 \<Longrightarrow> parseInt (natToString n) = Some (int n)"
  by (simp add: parseInt_digits roundToDouble_small)



lemma splitOn_nonempty: "splitOn c s \<noteq> []"
  by (induction s) (auto split: list.splits)

subsection \<open>Paths\<close>

lemma splitOn_append_tail:
  "c \<notin> set X \<Longrightarrow> splitOn c (s @ X) = butlast (splitOn c s) @ [last (splitOn c s) @ X]"
proof (induction s)
  case Nil
  then show ?case by (induction X) (auto split: list.splits)
next
  case (Cons x s)
  obtain p ps where sp: "splitOn c s = p # ps" using splitOn_nonempty[of c s] by (cases "splitOn c s") auto
  show ?case
  proof (cases "x = c")
    case True
    then show ?thesis using Cons sp by simp
  next
    case False
    then show ?thesis using Cons sp by (cases ps) simp_all
  qed
qed

lemma normalizeSegments_snoc:
  "seg \<noteq> [] \<Longrightarrow> seg \<noteq> ''.'' \<Longrightarrow> seg \<noteq> ''..'' \<Longrightarrow>
   normalizeSegments a res (segs @ [seg]) = normalizeSegments a res segs @ [seg]"
  by (induction a res segs rule: normalizeSegments.induct) auto

lemma joinSegments_snoc_tail: "joinSegments (res @ [l @ X]) = joinSegments (res @ [l]) @ X"
  by (cases res) (simp_all add: joinSegments_def)

lemma joinSegments_snoc_nonempty: "X \<noteq> [] \<Longrightarrow> joinSegments (res @ [l @ X]) \<noteq> []"
  by (simp add: joinSegments_snoc_tail)

text \<open>
  A path that ends in a slash-free piece of three or more characters is normalised to a
  path that ends in the same piece, and what comes before the piece does not depend on it.
\<close>

lemma normalize_tail:
  "\<exists>Q. \<forall>X. CHR ''/'' \<notin> set X \<and> 3 \<le> length X \<longrightarrow> normalize (P @ X) = Q @ X"
proof -
  let ?abs = "P \<noteq> [] \<and> hd P = CHR ''/''"
  let ?S = "splitOn CHR ''/'' P"
  let ?N = "normalizeSegments (\<not> ?abs) [] (butlast ?S)"
  let ?Q = "(if ?abs then ''/'' else []) @ joinSegments (?N @ [last ?S])"
  have "normalize (P @ X) = ?Q @ X" if X: "CHR ''/'' \<notin> set X" "3 \<le> length X" for X
  proof -
    have ne: "X \<noteq> []" using X(2) by auto
    have hdX: "hd X \<noteq> CHR ''/''" using X(1) ne by (cases X) auto
    have lastX: "last X \<noteq> CHR ''/''" using X(1) ne last_in_set[OF ne] by metis
    have abs: "(hd (P @ X) = CHR ''/'') = ?abs" using hdX by (cases P) simp_all
    have trail: "last (P @ X) \<noteq> CHR ''/''" using lastX ne by simp
    have sp: "splitOn CHR ''/'' (P @ X) = butlast ?S @ [last ?S @ X]"
      using X(1) by (rule splitOn_append_tail)
    have len: "3 \<le> length (last ?S @ X)" using X(2) by simp
    have seg: "last ?S @ X \<noteq> []" "last ?S @ X \<noteq> ''.''" "last ?S @ X \<noteq> ''..''"
    proof -
      show "last ?S @ X \<noteq> []" using ne by simp
      show "last ?S @ X \<noteq> ''.''" using len by (metis length_Cons list.size(3) numeral_3_eq_3 not_less_eq_eq Suc_le_mono le_zero_eq nat.simps(3))
      show "last ?S @ X \<noteq> ''..''" using len by (metis length_Cons list.size(3) numeral_3_eq_3 not_less_eq_eq Suc_le_mono le_zero_eq nat.simps(3))
    qed
    have ns: "normalizeSegments (\<not> ?abs) [] (butlast ?S @ [last ?S @ X]) = ?N @ [last ?S @ X]"
      using seg by (rule normalizeSegments_snoc)
    have body: "joinSegments (normalizeSegments (\<not> ?abs) [] (splitOn CHR ''/'' (P @ X)))
                  = joinSegments (?N @ [last ?S]) @ X"
      unfolding sp ns by (rule joinSegments_snoc_tail)
    have bne: "joinSegments (?N @ [last ?S]) @ X \<noteq> []" using ne by simp
    have pne: "P @ X \<noteq> []" using ne by simp
    show ?thesis
      unfolding normalize_def Let_def abs body using ne pne bne trail by simp
  qed
  then show ?thesis by blast
qed

lemma joinPath_tail:
  "\<exists>Q. \<forall>X. CHR ''/'' \<notin> set X \<and> 3 \<le> length X \<longrightarrow> joinPath dir (A @ X) = Q @ X"
proof (cases "dir = []")
  case True
  obtain Q where Q: "\<forall>X. CHR ''/'' \<notin> set X \<and> 3 \<le> length X \<longrightarrow> normalize (A @ X) = Q @ X"
    using normalize_tail[of A] by blast
  have "joinPath dir (A @ X) = Q @ X" if X: "CHR ''/'' \<notin> set X \<and> 3 \<le> length X" for X
  proof -
    have "X \<noteq> []" using X by auto
    then have "joinPath dir (A @ X) = normalize (A @ X)"
      using True by (simp add: joinPath_def joinSegments_def)
    then show ?thesis using Q X by simp
  qed
  then show ?thesis by blast
next
  case False
  obtain Q where Q: "\<forall>X. CHR ''/'' \<notin> set X \<and> 3 \<le> length X \<longrightarrow> normalize ((dir @ ''/'' @ A) @ X) = Q @ X"
    using normalize_tail[of "dir @ ''/'' @ A"] by blast
  have "joinPath dir (A @ X) = Q @ X" if X: "CHR ''/'' \<notin> set X \<and> 3 \<le> length X" for X
  proof -
    have "X \<noteq> []" using X by auto
    then have "joinPath dir (A @ X) = normalize ((dir @ ''/'' @ A) @ X)"
      using False by (simp add: joinPath_def joinSegments_def)
    then show ?thesis using Q X by simp
  qed
  then show ?thesis by blast
qed

lemma joinPath_tail_inj:
  assumes "CHR ''/'' \<notin> set X" "3 \<le> length X" "CHR ''/'' \<notin> set Y" "3 \<le> length Y"
  shows "joinPath dir (A @ X) = joinPath dir (A @ Y) \<longleftrightarrow> X = Y"
proof -
  obtain Q where Q: "\<forall>X. CHR ''/'' \<notin> set X \<and> 3 \<le> length X \<longrightarrow> joinPath dir (A @ X) = Q @ X"
    using joinPath_tail[of dir A] by blast
  have "joinPath dir (A @ X) = Q @ X" "joinPath dir (A @ Y) = Q @ Y" using Q assms by simp_all
  then show ?thesis by simp
qed

subsection \<open>The output loop and the file system\<close>

lemma writeOutputs_ok:
  "map body xs = map Inr nps \<Longrightarrow>
   writeOutputs dir body xs fs outputPaths =
     (Inr (outputPaths @ map (\<lambda>np. joinPath dir (fst np)) nps), writeAll dir nps fs)"
proof (induction xs arbitrary: nps fs outputPaths)
  case Nil
  then show ?case by (simp add: writeAll_def)
next
  case (Cons x xs)
  then obtain np nps' where nps: "nps = np # nps'" "body x = Inr np" "map body xs = map Inr nps'"
    by (cases nps) auto
  show ?case
    using Cons.IH[OF nps(3)] nps(1,2)
    by (cases np) (simp add: writeAll_def Let_def)
qed

lemma writeOutputs_fail:
  "map body xs = map Inr nps \<Longrightarrow> body y = Inl e \<Longrightarrow>
   writeOutputs dir body (xs @ y # ys) fs outputPaths = (Inl e, writeAll dir nps fs)"
proof (induction xs arbitrary: nps fs outputPaths)
  case Nil
  then show ?case by (simp add: writeAll_def)
next
  case (Cons x xs)
  then obtain np nps' where nps: "nps = np # nps'" "body x = Inr np" "map body xs = map Inr nps'"
    by (cases nps) auto
  show ?case
    using Cons.IH[OF nps(3) Cons.prems(2)] nps(1,2)
    by (cases np) (simp add: writeAll_def Let_def)
qed

text \<open>Every path the loop returns is the path of a name some iteration has built.\<close>

lemma writeOutputs_paths:
  "writeOutputs dir body xs fs acc = (Inr outputPaths, fs') \<Longrightarrow>
   set outputPaths \<subseteq> set acc \<union> {joinPath dir n | n d x. x \<in> set xs \<and> body x = Inr (n, d)}"
proof (induction xs arbitrary: fs acc)
  case Nil
  then show ?case by auto
next
  case (Cons x xs)
  show ?case
  proof (cases "body x")
    case (Inl e)
    then show ?thesis using Cons.prems by simp
  next
    case (Inr np)
    obtain n d where np: "np = (n, d)" by (cases np)
    have "writeOutputs dir body xs (writeFile fs (joinPath dir n) d) (acc @ [joinPath dir n])
            = (Inr outputPaths, fs')"
      using Cons.prems Inr np by (simp add: Let_def)
    from Cons.IH[OF this]
    have ih: "set outputPaths \<subseteq> set acc \<union> {joinPath dir n}
                \<union> {joinPath dir n | n d y. y \<in> set xs \<and> body y = Inr (n, d)}"
      by auto
    have a: "joinPath dir n \<in> {joinPath dir n | n d y. y \<in> set (x # xs) \<and> body y = Inr (n, d)}"
      using Inr np by auto
    have b: "{joinPath dir n | n d y. y \<in> set xs \<and> body y = Inr (n, d)}
               \<subseteq> {joinPath dir n | n d y. y \<in> set (x # xs) \<and> body y = Inr (n, d)}"
      by auto
    show ?thesis using ih a b by blast
  qed
qed

lemma writeAll_snoc:
  "writeAll dir (nps @ [np]) fs = (writeAll dir nps fs)(joinPath dir (fst np) \<mapsto> snd np)"
  by (simp add: writeAll_def writeFile_def)

lemma writeAll_lookup:
  assumes "(n, d) \<in> set nps"
    and "\<And>n' d'. (n', d') \<in> set nps \<Longrightarrow> joinPath dir n' = joinPath dir n \<Longrightarrow> d' = d"
  shows "writeAll dir nps fs (joinPath dir n) = Some d"
  using assms
proof (induction nps rule: rev_induct)
  case Nil
  then show ?case by simp
next
  case (snoc np nps)
  show ?case
  proof (cases "joinPath dir (fst np) = joinPath dir n")
    case True
    have "(fst np, snd np) \<in> set (nps @ [np])" by simp
    then have "snd np = d" using True by (rule snoc.prems(2))
    with True show ?thesis by (simp add: writeAll_snoc)
  next
    case False
    then have "np \<noteq> (n, d)" by auto
    then have mem: "(n, d) \<in> set nps" using snoc.prems(1) by auto
    have "writeAll dir nps fs (joinPath dir n) = Some d"
    proof (rule snoc.IH[OF mem])
      fix n' d' assume "(n', d') \<in> set nps" and p: "joinPath dir n' = joinPath dir n"
      then have "(n', d') \<in> set (nps @ [np])" by simp
      then show "d' = d" using p by (rule snoc.prems(2))
    qed
    with False show ?thesis by (simp add: writeAll_snoc)
  qed
qed

lemma writeAll_other:
  "p \<notin> (\<lambda>np. joinPath dir (fst np)) ` set nps \<Longrightarrow> writeAll dir nps fs p = fs p"
  by (induction nps rule: rev_induct) (auto simp: writeAll_snoc writeAll_def writeFile_def)


lemma copyPages_upt:
  "b \<le> length src \<Longrightarrow> copyPages src (map int [a..<b]) = Inr (map ((!) src) [a..<b])"
  by (auto simp: copyPages_def list_all_iff comp_def)

lemma copyPages_all: "copyPages src (map int [0..<length src]) = Inr src"
  by (simp add: copyPages_upt map_nth)

lemma pdfSave_nonempty: "doc \<noteq> [] \<Longrightarrow> pdfSave doc = doc"
  by (simp add: pdfSave_def)

lemma writeAll_docs:
  assumes inj: "\<And>i j. i \<in> set xs \<Longrightarrow> j \<in> set xs \<Longrightarrow>
                  joinPath dir (name i) = joinPath dir (name j) \<Longrightarrow> doc i = doc j"
  shows "map (writeAll dir (map (\<lambda>i. (name i, doc i)) xs) fs)
             (map (\<lambda>np. joinPath dir (fst np)) (map (\<lambda>i. (name i, doc i)) xs))
           = map (\<lambda>i. Some (doc i)) xs"
proof -
  have "writeAll dir (map (\<lambda>i. (name i, doc i)) xs) fs (joinPath dir (name i)) = Some (doc i)"
    if i: "i \<in> set xs" for i
  proof (rule writeAll_lookup)
    show "(name i, doc i) \<in> set (map (\<lambda>i. (name i, doc i)) xs)" using i by auto
  next
    fix n' d' assume "(n', d') \<in> set (map (\<lambda>i. (name i, doc i)) xs)"
      and p: "joinPath dir n' = joinPath dir (name i)"
    then obtain j where "j \<in> set xs" "name j = n'" "d' = doc j" by auto
    then show "d' = doc i" using inj[OF i, of j] p by simp
  qed
  then show ?thesis by (simp add: comp_def)
qed

subsection \<open>Output names and output paths\<close>

lemma underscore_notin_natToString: "CHR ''_'' \<notin> set (natToString n)"
  using natToString_digits[of n] isDigit_facts(5) by blast

lemma dash_notin_natToString: "CHR ''-'' \<notin> set (natToString n)"
  using natToString_digits[of n] isDigit_facts(3) by blast

lemma slash_notin_natToString: "CHR ''/'' \<notin> set (natToString n)"
  using natToString_digits[of n] isDigit_facts(8) by blast

lemma slash_notin_intToString: "CHR ''/'' \<notin> set (intToString i)"
  using slash_notin_natToString by (simp add: intToString_def)

lemma underscore_notin_intToString: "CHR ''_'' \<notin> set (intToString i)"
  using underscore_notin_natToString by (simp add: intToString_def)

lemma takeWhile_until: "c \<notin> set a \<Longrightarrow> takeWhile (\<lambda>x. x \<noteq> c) (a @ c # b) = a"
  by (induction a) auto

lemma split_at_first:
  assumes "c \<notin> set a" "c \<notin> set a'" "a @ c # b = a' @ c # b'"
  shows "a = a' \<and> b = b'"
proof -
  have "takeWhile (\<lambda>x. x \<noteq> c) (a @ c # b) = a" "takeWhile (\<lambda>x. x \<noteq> c) (a' @ c # b') = a'"
    using assms(1,2) by (simp_all add: takeWhile_until)
  then have "a = a'" using assms(3) by simp
  then show ?thesis using assms(3) by simp
qed

lemma split_at_last:
  assumes "c \<notin> set b" "c \<notin> set b'" "a @ c # b = a' @ c # b'"
  shows "a = a' \<and> b = b'"
proof -
  have "rev (a @ c # b) = rev (a' @ c # b')" using assms(3) by simp
  then have e: "rev b @ c # rev a = rev b' @ c # rev a'" by simp
  have "rev b = rev b' \<and> rev a = rev a'"
    by (rule split_at_first[OF _ _ e]) (simp_all add: assms(1,2))
  then show ?thesis by simp
qed

text \<open>A name is a prefix, the operation identifier, and a tail without a slash.\<close>

lemma outputFileName_tail:
  "outputFileName oid suffix t =
     ((if suffix = MergedOut then ''merged_'' else ''split_'') @ oid) @ nameTail suffix t"
  by (cases suffix) (simp_all add: outputFileName_def nameTail_def)

lemma nameTail_slashfree: "CHR ''/'' \<notin> set (nameTail suffix t)"
  using slash_notin_natToString slash_notin_intToString
  by (cases suffix) (simp_all add: nameTail_def)

lemma nameTail_length: "3 \<le> length (nameTail suffix t)"
  by (cases suffix) (simp_all add: nameTail_def)

text \<open>
  Within one operation, two split outputs (or two merged outputs) are stored at the same
  path exactly when they have the same name.
\<close>

lemma outputPath_eq_iff:
  assumes "suffix = MergedOut \<longleftrightarrow> suffix' = MergedOut"
  shows "joinPath dir (outputFileName oid suffix t) = joinPath dir (outputFileName oid suffix' t')
           \<longleftrightarrow> outputFileName oid suffix t = outputFileName oid suffix' t'"
proof -
  let ?A = "(if suffix = MergedOut then ''merged_'' else ''split_'') @ oid"
  have n: "outputFileName oid suffix t = ?A @ nameTail suffix t"
    "outputFileName oid suffix' t' = ?A @ nameTail suffix' t'"
    using assms by (simp_all add: outputFileName_tail)
  have "joinPath dir (?A @ nameTail suffix t) = joinPath dir (?A @ nameTail suffix' t')
          \<longleftrightarrow> nameTail suffix t = nameTail suffix' t'"
    by (rule joinPath_tail_inj) (simp_all add: nameTail_slashfree nameTail_length)
  then show ?thesis unfolding n by simp
qed

lemma pageName_inj:
  "outputFileName oid (PageOut a) t = outputFileName oid (PageOut b) t' \<longleftrightarrow> a = b \<and> t = t'"
proof
  assume "outputFileName oid (PageOut a) t = outputFileName oid (PageOut b) t'"
  then have "natToString a @ CHR ''_'' # (natToString t @ ''.pdf'')
           = natToString b @ CHR ''_'' # (natToString t' @ ''.pdf'')"
    by (simp add: outputFileName_def)
  from split_at_first[OF underscore_notin_natToString underscore_notin_natToString this]
  show "a = b \<and> t = t'" by (auto dest: natToString_inj)
qed simp



subsection \<open>Size-based splitting\<close>








subsection \<open>Page ranges\<close>

lemma splitOn_none: "c \<notin> set b \<Longrightarrow> splitOn c b = [b]"
  by (induction b) auto

lemma splitOn_first: "c \<notin> set a \<Longrightarrow> splitOn c (a @ c # b) = a # splitOn c b"
  by (induction a) auto

lemma trimStart_id: "s = [] \<or> \<not> isWhiteSpace (hd s) \<Longrightarrow> trimStart s = s"
  by (cases s) (auto simp: trimStart_def)

lemma trim_id:
  "s \<noteq> [] \<Longrightarrow> \<not> isWhiteSpace (hd s) \<Longrightarrow> \<not> isWhiteSpace (last s) \<Longrightarrow> trim s = s"
  by (simp add: trim_def trimStart_id hd_rev)

lemma natToString_ends:
  "\<not> isWhiteSpace (hd (natToString n))" "\<not> isWhiteSpace (last (natToString n))"
proof -
  have "hd (natToString n) \<in> set (natToString n)" "last (natToString n) \<in> set (natToString n)"
    using natToString_nonempty by simp_all
  then have "hd (natToString n) \<in> set ''0123456789''" "last (natToString n) \<in> set ''0123456789''"
    using natToString_digits[of n] by blast+
  then show "\<not> isWhiteSpace (hd (natToString n))" "\<not> isWhiteSpace (last (natToString n))"
    by (simp_all only: isDigit_facts(2) not_False_eq_True)
qed

lemma trim_natToString: "trim (natToString n) = natToString n"
  by (rule trim_id) (simp_all add: natToString_nonempty natToString_ends)

lemma trim_dash_token:
  "trim (natToString a @ CHR ''-'' # natToString b) = natToString a @ CHR ''-'' # natToString b"
  by (rule trim_id) (simp_all add: natToString_nonempty natToString_ends)

text \<open>
  The decimal tokens \<open>n\<close> and \<open>a-b\<close> within \<open>1..T\<close> are read as \<open>(n, n)\<close>
  and \<open>(a, b)\<close>.
\<close>

lemma parsePageRange_single:
  assumes "1 \<le> n" "n \<le> totalPages" "totalPages < 2 ^ 53"
  shows "parsePageRange (natToString n) totalPages = Inr (int n, int n)"
proof -
  have "n < 2 ^ 53" using assms(2,3) by simp
  then show ?thesis
    using assms(1,2) dash_notin_natToString[of n]
    by (simp add: parsePageRange_def trim_natToString includesChar_def parseInt_natToString)
qed

lemma parsePageRange_dash:
  assumes "1 \<le> a" "a \<le> b" "b \<le> totalPages" "totalPages < 2 ^ 53"
  shows "parsePageRange (natToString a @ ''-'' @ natToString b) totalPages = Inr (int a, int b)"
proof -
  have "a < 2 ^ 53" "b < 2 ^ 53" using assms(2,3,4) by simp_all
  then show ?thesis
    using assms(1,2,3) dash_notin_natToString
    by (simp add: parsePageRange_def trim_dash_token includesChar_def splitOn_first splitOn_none
        trim_natToString parseInt_natToString)
qed



lemma rangeCase_fail:
  "parsePageRange r (length pdf) = Inl e \<Longrightarrow> rangeCase now oid pdf (i, r) = Inl e"
  by (simp add: rangeCase_def)








subsection \<open>Range splitting\<close>




subsection \<open>Merging\<close>

lemma mergeLoop_ok:
  "list_all (\<lambda>f. fs (path f) \<noteq> None) fls \<Longrightarrow>
   mergeLoop fs fls acc = Inr (acc @ concat (map (\<lambda>f. the (fs (path f))) fls))"
proof (induction fls arbitrary: acc)
  case Nil
  then show ?case by simp
next
  case (Cons f fls)
  then obtain pdf where pdf: "fs (path f) = Some pdf" by auto
  show ?case using Cons pdf by (simp add: copyPages_all)
qed

lemma mergeLoop_missing:
  "\<not> list_all (\<lambda>f. fs (path f) \<noteq> None) fls \<Longrightarrow> \<exists>p. mergeLoop fs fls acc = Inl (PdfLoadError p)"
proof (induction fls arbitrary: acc)
  case Nil
  then show ?case by simp
next
  case (Cons f fls)
  show ?case
  proof (cases "fs (path f)")
    case None
    then show ?thesis by simp
  next
    case (Some pdf)
    then have "\<not> list_all (\<lambda>f. fs (path f) \<noteq> None) fls" using Cons.prems by simp
    from Cons.IH[OF this] Some show ?thesis by (simp add: copyPages_all)
  qed
qed

lemma mergePdfFiles_ok:
  assumes "list_all (\<lambda>f. fs (path f) \<noteq> None) fls"
  shows "mergePdfFiles dir t fs fls oid =
           (Inr (joinPath dir (outputFileName oid MergedOut t)),
            fs(joinPath dir (outputFileName oid MergedOut t) \<mapsto>
                 pdfSave (concat (map (\<lambda>f. the (fs (path f))) (sortByOrder fls)))))"
proof -
  have "list_all (\<lambda>f. fs (path f) \<noteq> None) (sortByOrder fls)"
    using assms by (simp add: sortByOrder_def list_all_iff)
  then show ?thesis
    by (simp add: mergePdfFiles_def mergeLoop_ok writeFile_def Let_def)
qed

lemma pagesCase_ok:
  "i < length pdf \<Longrightarrow>
   pagesCase now oid pdf i = Inr (outputFileName oid (PageOut (i + 1)) (now i), [pdf ! i])"
  by (simp add: pagesCase_def copyPages_def pdfSave_def)

lemma split_pages_result:
  assumes "fs inputPath = Some pdf" and "splitType options = ''pages''"
  shows "splitPdfFile dir now fs inputPath oid options =
           (Inr (map (\<lambda>i. joinPath dir (outputFileName oid (PageOut (i + 1)) (now i))) [0..<length pdf]),
            writeAll dir (map (\<lambda>i. (outputFileName oid (PageOut (i + 1)) (now i), [pdf ! i])) [0..<length pdf]) fs)"
proof -
  let ?nps = "map (\<lambda>i. (outputFileName oid (PageOut (i + 1)) (now i), [pdf ! i])) [0..<length pdf]"
  have "map (pagesCase now oid pdf) [0..<length pdf]
          = map (\<lambda>i. Inr (outputFileName oid (PageOut (i + 1)) (now i), [pdf ! i])) [0..<length pdf]"
    by (rule map_cong[OF refl]) (simp add: pagesCase_ok)
  then have body: "map (pagesCase now oid pdf) [0..<length pdf] = map Inr ?nps"
    by (simp only: map_map comp_def)
  have "splitLoop dir now fs pdf oid options =
          (Inr (map (\<lambda>np. joinPath dir (fst np)) ?nps), writeAll dir ?nps fs)"
    using assms(2) writeOutputs_ok[OF body, of dir fs "[]"] by (simp add: splitLoop_def)
  then show ?thesis using assms(1) by (simp add: splitPdfFile_def comp_def)
qed

lemma pagePath_eq_iff:
  "joinPath dir (outputFileName oid (PageOut (i + 1)) (now i))
     = joinPath dir (outputFileName oid (PageOut (j + 1)) (now j)) \<longleftrightarrow> i = j"
  by (auto simp: outputPath_eq_iff pageName_inj)

lemma split_pages_docs:
  "map (writeAll dir (map (\<lambda>i. (outputFileName oid (PageOut (i + 1)) (now i), [pdf ! i])) [0..<length pdf]) fs)
       (map (\<lambda>i. joinPath dir (outputFileName oid (PageOut (i + 1)) (now i))) [0..<length pdf])
     = map (\<lambda>i. Some [pdf ! i]) [0..<length pdf]"
proof -
  let ?name = "\<lambda>i. outputFileName oid (PageOut (i + 1)) (now i)"
  let ?doc = "\<lambda>i. [pdf ! i]"
  have "map (writeAll dir (map (\<lambda>i. (?name i, ?doc i)) [0..<length pdf]) fs)
            (map (\<lambda>np. joinPath dir (fst np)) (map (\<lambda>i. (?name i, ?doc i)) [0..<length pdf]))
          = map (\<lambda>i. Some (?doc i)) [0..<length pdf]"
  proof (rule writeAll_docs)
    fix i j assume "joinPath dir (?name i) = joinPath dir (?name j)"
    then have "i = j" by (simp only: pagePath_eq_iff)
    then show "?doc i = ?doc j" by simp
  qed
  then show ?thesis by (simp add: comp_def)
qed

lemma split_pages_distinct:
  "distinct (map (\<lambda>i. joinPath dir (outputFileName oid (PageOut (i + 1)) (now i))) [0..<n])"
proof -
  have "inj_on (\<lambda>i. joinPath dir (outputFileName oid (PageOut (i + 1)) (now i))) (set [0..<n])"
    by (rule inj_onI) (simp only: pagePath_eq_iff)
  then show ?thesis by (simp only: distinct_map distinct_upt simp_thms)
qed

subsection \<open>Per-page split, then merge\<close>

text \<open>
  Claim C8, as the code has it. Splitting a document of \<open>T \<ge> 1\<close> pages with the
  \<^verbatim>\<open>pages\<close> strategy succeeds with \<open>T\<close> output paths, all different, and
  merging files that name those paths in the returned order always succeeds with a
  document of \<open>T\<close> pages. When the files carry no \<^verbatim>\<open>order\<close>, or orders that do
  not decrease along the list (the upload order), the merged document is the original
  page sequence itself.
\<close>

theorem split_pages_then_merge:
  assumes "fs inputPath = Some pdf" and "splitType options = ''pages''" and "1 \<le> length pdf"
  shows "\<exists>outputPaths fs1.
           splitPdfFile dir now fs inputPath oid options = (Inr outputPaths, fs1) \<and>
           length outputPaths = length pdf \<and> distinct outputPaths \<and>
           (\<forall>parts. map path parts = outputPaths \<longrightarrow>
              (\<exists>mergedPath merged fs2.
                 mergePdfFiles dir' t fs1 parts oid' = (Inr mergedPath, fs2) \<and>
                 fs2 mergedPath = Some merged \<and> length merged = length pdf \<and>
                 (sorted (map orderOrZero parts) \<longrightarrow> merged = pdf)))"
proof -
  let ?T = "length pdf"
  let ?paths = "map (\<lambda>i. joinPath dir (outputFileName oid (PageOut (i + 1)) (now i))) [0..<?T]"
  let ?fs1 = "writeAll dir (map (\<lambda>i. (outputFileName oid (PageOut (i + 1)) (now i), [pdf ! i])) [0..<?T]) fs"
  have sp: "splitPdfFile dir now fs inputPath oid options = (Inr ?paths, ?fs1)"
    using assms(1,2) by (rule split_pages_result)
  have mergeable:
    "\<exists>mergedPath merged fs2.
       mergePdfFiles dir' t ?fs1 parts oid' = (Inr mergedPath, fs2) \<and>
       fs2 mergedPath = Some merged \<and> length merged = ?T \<and>
       (sorted (map orderOrZero parts) \<longrightarrow> merged = pdf)"
    if paths: "map path parts = ?paths" for parts :: "orderedFile list"
  proof -
    have docs: "map ?fs1 (map path parts) = map (\<lambda>i. Some [pdf ! i]) [0..<?T]"
      unfolding paths by (rule split_pages_docs)
    have len: "length parts = ?T" using arg_cong[OF paths, of length] by simp
    have each: "\<exists>x. ?fs1 (path f) = Some [x]" if "f \<in> set parts" for f
    proof -
      from that obtain i where i: "i < length parts" "parts ! i = f"
        unfolding in_set_conv_nth by blast
      have "map ?fs1 (map path parts) ! i = map (\<lambda>i. Some [pdf ! i]) [0..<?T] ! i"
        by (simp only: docs)
      then show ?thesis using i len by simp
    qed
    have present: "list_all (\<lambda>f. ?fs1 (path f) \<noteq> None) parts"
      using each by (fastforce simp: list_all_iff)
    let ?mp = "joinPath dir' (outputFileName oid' MergedOut t)"
    let ?merged = "concat (map (\<lambda>f. the (?fs1 (path f))) (sortByOrder parts))"
    have mg: "mergePdfFiles dir' t ?fs1 parts oid' = (Inr ?mp, ?fs1(?mp \<mapsto> pdfSave ?merged))"
      using present by (rule mergePdfFiles_ok)
    have one: "length (the (?fs1 (path f))) = 1" if "f \<in> set (sortByOrder parts)" for f
      using each[of f] that by (auto simp: sortByOrder_def)
    have "length ?merged = length (sortByOrder parts)"
      using one by (simp add: length_concat comp_def sum_list_triv cong: map_cong)
    then have l: "length ?merged = ?T" using len by (simp add: sortByOrder_def)
    have T: "0 < length pdf" using assms(3) by arith
    have "0 < length ?merged" unfolding l by (rule T)
    then have "?merged \<noteq> []" by (simp only: length_greater_0_conv simp_thms)
    then have sv: "pdfSave ?merged = ?merged" by (rule pdfSave_nonempty)
    have id: "?merged = pdf" if "sorted (map orderOrZero parts)"
    proof -
      have "sortByOrder parts = parts"
        unfolding sortByOrder_def using that by (rule sort_key_id_if_sorted)
      then have "?merged = concat (map the (map ?fs1 (map path parts)))" by (simp add: comp_def)
      also have "\<dots> = concat (map (\<lambda>i. [pdf ! i]) [0..<?T])" unfolding docs by (simp add: comp_def)
      also have "\<dots> = pdf" by (simp add: map_nth)
      finally show ?thesis .
    qed
    show ?thesis unfolding mg sv using l id by simp
  qed
  show ?thesis
  proof (rule exI[of _ ?paths], rule exI[of _ ?fs1], intro conjI allI impI)
    show "splitPdfFile dir now fs inputPath oid options = (Inr ?paths, ?fs1)" by (rule sp)
    show "length ?paths = ?T" by simp
    show "distinct ?paths" by (rule split_pages_distinct)
  next
    fix parts :: "orderedFile list" assume "map path parts = ?paths"
    then show "\<exists>mergedPath merged fs2.
       mergePdfFiles dir' t ?fs1 parts oid' = (Inr mergedPath, fs2) \<and>
       fs2 mergedPath = Some merged \<and> length merged = ?T \<and>
       (sorted (map orderOrZero parts) \<longrightarrow> merged = pdf)" by (rule mergeable)
  qed
qed

text \<open>A 3-page document, split per page and merged again from files without an order.\<close>

theorem split_pages_then_merge_witness:
  "(case splitPdfFile ''processed'' (\<lambda>i. 1700000000000) [''uploads/in.pdf'' \<mapsto> map Page ''abc'']
          ''uploads/in.pdf'' ''op1''
          \<lparr>splitType = ''pages'', pageRanges = RangeArray [], pagesPerFile = 1\<rparr> of
      (Inr outputPaths, fs1) \<Rightarrow>
        length outputPaths = 3 \<and> distinct outputPaths \<and>
        (case mergePdfFiles ''processed'' 1700000000001 fs1
                (map (\<lambda>p. \<lparr>originalName = basename p, filename = basename p, path = p, size_f = 0,
                             mimetype = ''application/pdf'', order_f = None\<rparr>) outputPaths) ''op2'' of
           (Inr mergedPath, fs2) \<Rightarrow> fs2 mergedPath = Some (map Page ''abc'')
         | (Inl e, fs2) \<Rightarrow> False)
    | (Inl e, fs1) \<Rightarrow> False)"
proof -
  let ?part = "\<lambda>p. \<lparr>originalName = basename p, filename = basename p, path = p, size_f = 0,
                      mimetype = ''application/pdf'', order_f = None :: int option\<rparr>"
  let ?pdf = "map Page ''abc''"
  let ?opts = "\<lparr>splitType = ''pages'', pageRanges = RangeArray [], pagesPerFile = 1\<rparr>"
  obtain outputPaths fs1 where
    sp: "splitPdfFile ''processed'' (\<lambda>i. 1700000000000) [''uploads/in.pdf'' \<mapsto> ?pdf]
          ''uploads/in.pdf'' ''op1'' ?opts = (Inr outputPaths, fs1)"
    and len: "length outputPaths = length ?pdf"
    and dist: "distinct outputPaths"
    and mg: "\<forall>parts. map path parts = outputPaths \<longrightarrow>
              (\<exists>mergedPath merged fs2.
                 mergePdfFiles ''processed'' 1700000000001 fs1 parts ''op2'' = (Inr mergedPath, fs2) \<and>
                 fs2 mergedPath = Some merged \<and> length merged = length ?pdf \<and>
                 (sorted (map orderOrZero parts) \<longrightarrow> merged = ?pdf))"
    using split_pages_then_merge
      [of "[''uploads/in.pdf'' \<mapsto> ?pdf]" "''uploads/in.pdf''" ?pdf ?opts
          "''processed''" "\<lambda>i. 1700000000000" "''op1''" "''processed''" 1700000000001 "''op2''"]
    by auto
  have p: "map path (map ?part outputPaths) = outputPaths" by (simp add: comp_def)
  have s: "sorted (map orderOrZero (map ?part outputPaths))"
    by (simp add: comp_def orderOrZero_def sorted_map)
  from mg p s obtain mergedPath fs2 where
    "mergePdfFiles ''processed'' 1700000000001 fs1 (map ?part outputPaths) ''op2'' = (Inr mergedPath, fs2)"
    "fs2 mergedPath = Some ?pdf"
    by blast
  then show ?thesis using sp len dist by simp
qed

text \<open>
  The claim as stated fails for a document without pages: the split gives no parts, and
  the document merged from no parts is stored with the one blank page that saving adds.
\<close>

theorem empty_document_round_trip:
  "(case splitPdfFile ''processed'' (\<lambda>i. 1700000000000) [''uploads/in.pdf'' \<mapsto> ([] :: char pdf)]
          ''uploads/in.pdf'' ''op1''
          \<lparr>splitType = ''pages'', pageRanges = RangeArray [], pagesPerFile = 1\<rparr> of
      (Inr outputPaths, fs1) \<Rightarrow>
        outputPaths = [] \<and>
        (case mergePdfFiles ''processed'' 1700000000001 fs1 [] ''op2'' of
           (Inr mergedPath, fs2) \<Rightarrow> fs2 mergedPath = Some [BlankPage]
         | (Inl e, fs2) \<Rightarrow> False)
    | (Inl e, fs1) \<Rightarrow> False)"
  by (simp add: splitPdfFile_def splitLoop_def mergePdfFiles_def sortByOrder_def pdfSave_def
      writeFile_def Let_def)

subsection \<open>Output file names\<close>

lemma underscore_notin_tail: "CHR ''_'' \<notin> set (natToString t @ ''.pdf'')"
  using underscore_notin_natToString by simp

lemma outputFileName_stem:
  "outputFileName oid suffix t = nameStem oid suffix @ CHR ''_'' # (natToString t @ ''.pdf'')"
  by (cases suffix) (simp_all add: outputFileName_def nameStem_def)

lemma stem_split:
  "suffix \<noteq> MergedOut \<Longrightarrow> nameStem oid suffix = ''split_'' @ (oid @ suffixLabel suffix) @ CHR ''_'' # suffixRest suffix"
  by (cases suffix) (simp_all add: nameStem_def suffixLabel_def suffixRest_def)

lemma underscore_notin_rest: "CHR ''_'' \<notin> set (suffixRest suffix)"
  using underscore_notin_natToString underscore_notin_intToString
  by (cases suffix) (simp_all add: suffixRest_def)

lemma label_cancel: 
  assumes "suffix \<noteq> MergedOut" "suffix' \<noteq> MergedOut" "oid @ suffixLabel suffix = oid' @ suffixLabel suffix'"
    "suffixRest suffix = suffixRest suffix'"
  shows "oid = oid'"
proof -
  have dash: "CHR ''-'' \<in> set (suffixRest (RangeOut s e))" for s e by (simp add: suffixRest_def)
  have nodash: "CHR ''-'' \<notin> set (suffixRest (PageOut n))" "CHR ''-'' \<notin> set (suffixRest (PartOut n))" for n
    using dash_notin_natToString by (simp_all add: suffixRest_def)
  have rev_eq: "rev (suffixLabel suffix) @ rev oid = rev (suffixLabel suffix') @ rev oid'"
    using arg_cong[OF assms(3), of rev] by simp
  show ?thesis
  proof (cases suffix)
    case MergedOut then show ?thesis using assms(1) by simp
  next
    case (PageOut n)
    show ?thesis
    proof (cases suffix')
      case MergedOut then show ?thesis using assms(2) by simp
    next
      case (PageOut m) then show ?thesis using assms(3) \<open>suffix = PageOut n\<close> by (simp add: suffixLabel_def)
    next
      case (RangeOut s e)
      then show ?thesis using assms(4) \<open>suffix = PageOut n\<close> dash[of s e] nodash(1)[of n] by metis
    next
      case (PartOut m) then show ?thesis using rev_eq \<open>suffix = PageOut n\<close> by (simp add: suffixLabel_def)
    qed
  next
    case (RangeOut s e)
    show ?thesis
    proof (cases suffix')
      case MergedOut then show ?thesis using assms(2) by simp
    next
      case (PageOut m)
      then show ?thesis using assms(4) \<open>suffix = RangeOut s e\<close> dash[of s e] nodash(1)[of m] by metis
    next
      case (RangeOut s' e') then show ?thesis using assms(3) \<open>suffix = RangeOut s e\<close> by (simp add: suffixLabel_def)
    next
      case (PartOut m)
      then show ?thesis using assms(4) \<open>suffix = RangeOut s e\<close> dash[of s e] nodash(2)[of m] by metis
    qed
  next
    case (PartOut n)
    show ?thesis
    proof (cases suffix')
      case MergedOut then show ?thesis using assms(2) by simp
    next
      case (PageOut m) then show ?thesis using rev_eq \<open>suffix = PartOut n\<close> by (simp add: suffixLabel_def)
    next
      case (RangeOut s e)
      then show ?thesis using assms(4) \<open>suffix = PartOut n\<close> dash[of s e] nodash(2)[of n] by metis
    next
      case (PartOut m) then show ?thesis using assms(3) \<open>suffix = PartOut n\<close> by (simp add: suffixLabel_def)
    qed
  qed
qed

lemma stem_inj: "nameStem oid suffix = nameStem oid' suffix' \<Longrightarrow> oid = oid'"
proof -
  assume eq: "nameStem oid suffix = nameStem oid' suffix'"
  show ?thesis
  proof (cases "suffix = MergedOut")
    case True
    then show ?thesis using eq by (cases suffix') (simp_all add: nameStem_def)
  next
    case False
    show ?thesis
    proof (cases "suffix' = MergedOut")
      case True
      then show ?thesis using eq by (cases suffix) (simp_all add: nameStem_def)
    next
      case F': False
      have "(oid @ suffixLabel suffix) @ CHR ''_'' # suffixRest suffix = (oid' @ suffixLabel suffix') @ CHR ''_'' # suffixRest suffix'"
        using eq stem_split[OF False, of oid] stem_split[OF F', of oid'] by simp
      from split_at_last[OF underscore_notin_rest underscore_notin_rest this]
      show ?thesis using label_cancel[OF False F'] by simp
    qed
  qed
qed

lemma outputFileName_oid_inj:
  "outputFileName oid suffix t = outputFileName oid' suffix' t' \<Longrightarrow> oid = oid'"
proof -
  assume eq: "outputFileName oid suffix t = outputFileName oid' suffix' t'"
  have "nameStem oid suffix @ CHR ''_'' # (natToString t @ ''.pdf'')
          = nameStem oid' suffix' @ CHR ''_'' # (natToString t' @ ''.pdf'')"
    using eq by (simp only: outputFileName_stem)
  from split_at_last[OF underscore_notin_tail underscore_notin_tail this]
  have "nameStem oid suffix = nameStem oid' suffix'" by simp
  then show "oid = oid'" by (rule stem_inj)
qed

lemma outputFileName_clock_inj:
  "outputFileName oid suffix t = outputFileName oid suffix t' \<longleftrightarrow> t = t'"
proof
  assume "outputFileName oid suffix t = outputFileName oid suffix t'"
  then have "natToString t @ ''.pdf'' = natToString t' @ ''.pdf''"
    by (simp only: outputFileName_stem same_append_eq list.inject simp_thms)
  then show "t = t'" by (auto dest: natToString_inj)
qed simp

lemma slashfree_name:
  "CHR ''/'' \<notin> set oid \<Longrightarrow> CHR ''/'' \<notin> set (outputFileName oid suffix t)"
  using nameTail_slashfree[of suffix t] by (simp add: outputFileName_tail)

lemma name_length: "3 \<le> length (outputFileName oid suffix t)"
  using nameTail_length[of suffix t] by (simp add: outputFileName_tail)

lemma slashfree_path_eq_iff:
  assumes "CHR ''/'' \<notin> set oid" "CHR ''/'' \<notin> set oid'"
  shows "joinPath dir (outputFileName oid suffix t) = joinPath dir (outputFileName oid' suffix' t')
          \<longleftrightarrow> outputFileName oid suffix t = outputFileName oid' suffix' t'"
  using joinPath_tail_inj[of "outputFileName oid suffix t" "outputFileName oid' suffix' t'" dir "[]"]
    slashfree_name[OF assms(1)] slashfree_name[OF assms(2)] name_length
  by simp

text \<open>Every path a call returns is the path of a name built by \<open>outputFileName\<close>.\<close>

lemma pagesCase_name:
  "pagesCase now oid pdf i = Inr (n, d) \<Longrightarrow> \<exists>suffix k. n = outputFileName oid suffix (now k)"
  by (auto simp: pagesCase_def split: sum.splits)

lemma rangeCase_name:
  "rangeCase now oid pdf ir = Inr (n, d) \<Longrightarrow> \<exists>suffix k. n = outputFileName oid suffix (now k)"
  by (auto simp: rangeCase_def split: sum.splits prod.splits)

lemma sizeCase_name:
  "sizeCase now oid pdf w i = Inr (n, d) \<Longrightarrow> \<exists>suffix k. n = outputFileName oid suffix (now k)"
  by (auto simp: sizeCase_def Let_def split: sum.splits)

lemma writeOutputs_named:
  assumes "writeOutputs dir body xs fs [] = (Inr outputPaths, fs1)" and "p \<in> set outputPaths"
    and "\<And>x n d. body x = Inr (n, d) \<Longrightarrow> \<exists>suffix k. n = outputFileName oid suffix (now k)"
  shows "\<exists>suffix k. p = joinPath dir (outputFileName oid suffix (now k))"
proof -
  from writeOutputs_paths[OF assms(1)] assms(2)
  obtain n d x where "p = joinPath dir n" "body x = Inr (n, d)" by auto
  with assms(3)[of x n d] show ?thesis by auto
qed

lemma split_paths_named:
  assumes "splitPdfFile dir now fs inputPath oid options = (Inr outputPaths, fs1)"
    and "p \<in> set outputPaths"
  shows "\<exists>suffix k. p = joinPath dir (outputFileName oid suffix (now k))"
proof -
  from assms(1) obtain pdf where pdf: "fs inputPath = Some pdf"
    by (cases "fs inputPath") (simp_all add: splitPdfFile_def)
  from assms(1) pdf have loop: "splitLoop dir now fs pdf oid options = (Inr outputPaths, fs1)"
    by (auto simp: splitPdfFile_def split: prod.splits sum.splits)
  show ?thesis
  proof (cases "splitType options = ''pages''")
    case True
    then have "writeOutputs dir (pagesCase now oid pdf) [0..<length pdf] fs [] = (Inr outputPaths, fs1)"
      using loop by (simp add: splitLoop_def)
    from writeOutputs_named[OF this assms(2)] pagesCase_name show ?thesis by blast
  next
    case np: False
    show ?thesis
    proof (cases "splitType options = ''range''")
      case True
      then have "writeOutputs dir (rangeCase now oid pdf)
                   (enumerate 0 (rangeItems (pageRanges options))) fs [] = (Inr outputPaths, fs1)"
        using loop np by (simp add: splitLoop_def split: if_splits)
      from writeOutputs_named[OF this assms(2)] rangeCase_name show ?thesis by blast
    next
      case nr: False
      show ?thesis
      proof (cases "splitType options = ''size''")
        case True
        show ?thesis
        proof (cases "parseInt (numberToString (pagesPerFile options))")
          case None
          then have "outputPaths = []" using loop np nr True by (simp add: splitLoop_def)
          then show ?thesis using assms(2) by simp
        next
          case (Some parsed)
          then have "writeOutputs dir (sizeCase now oid pdf (max 1 parsed))
                   [0..<nat (mathCeilDiv (int (length pdf)) (max 1 parsed))] fs []
                   = (Inr outputPaths, fs1)"
            using loop np nr True by (simp add: splitLoop_def Let_def)
          from writeOutputs_named[OF this assms(2)] sizeCase_name show ?thesis by blast
        qed
      next
        case False
        then show ?thesis using loop np nr by (simp add: splitLoop_def)
      qed
    qed
  qed
qed

lemma merge_path_named:
  "mergePdfFiles dir t fs inputFiles_arg oid = (Inr outputPath, fs2) \<Longrightarrow>
   outputPath = joinPath dir (outputFileName oid MergedOut t)"
  by (auto simp: mergePdfFiles_def Let_def split: sum.splits)

text \<open>
  Claim C9, as the code has it. An output file name is built from the operation
  identifier, the suffix and the value of \<^verbatim>\<open>Date.now()\<close> at the moment of naming
  (\<open>outputFileName\<close>): for one operation and one suffix, two names are equal exactly
  when they were built at the same clock value, so that the name is not a function of
  the first two alone. Every name embeds the operation identifier, and the names of two
  different operations never coincide, whatever the identifiers, the suffixes and the
  clock values are; for identifiers without a slash the same holds of the output paths.
  Every path that \<^verbatim>\<open>splitPdfFile\<close> or \<^verbatim>\<open>mergePdfFiles\<close> returns is the
  path of such a name, built from the identifier of the call.
\<close>

theorem output_names_embed_operation:
  "(\<exists>pre post. outputFileName oid suffix t = pre @ oid @ post)
   \<and> (oid \<noteq> oid' \<longrightarrow> outputFileName oid suffix t \<noteq> outputFileName oid' suffix' t')
   \<and> (outputFileName oid suffix t = outputFileName oid suffix t' \<longleftrightarrow> t = t')
   \<and> (oid \<noteq> oid' \<and> CHR ''/'' \<notin> set oid \<and> CHR ''/'' \<notin> set oid' \<longrightarrow>
        joinPath dir (outputFileName oid suffix t) \<noteq> joinPath dir (outputFileName oid' suffix' t'))
   \<and> (splitPdfFile dir now fs inputPath oid options = (Inr outputPaths, fs1) \<longrightarrow>
        (\<forall>p\<in>set outputPaths. \<exists>sfx k. p = joinPath dir (outputFileName oid sfx (now k))))
   \<and> (mergePdfFiles dir t fs inputFiles_arg oid = (Inr outputPath, fs2) \<longrightarrow>
        outputPath = joinPath dir (outputFileName oid MergedOut t))"
proof (intro conjI impI ballI)
  show "\<exists>pre post. outputFileName oid suffix t = pre @ oid @ post"
  proof -
    have "outputFileName oid suffix t
            = (if suffix = MergedOut then ''merged_'' else ''split_'') @ oid @ nameTail suffix t"
      by (simp add: outputFileName_tail)
    then show ?thesis by blast
  qed
next
  assume "oid \<noteq> oid'"
  then show "outputFileName oid suffix t \<noteq> outputFileName oid' suffix' t'"
    using outputFileName_oid_inj by blast
next
  show "outputFileName oid suffix t = outputFileName oid suffix t' \<longleftrightarrow> t = t'"
    by (rule outputFileName_clock_inj)
next
  assume a: "oid \<noteq> oid' \<and> CHR ''/'' \<notin> set oid \<and> CHR ''/'' \<notin> set oid'"
  then have "outputFileName oid suffix t \<noteq> outputFileName oid' suffix' t'"
    using outputFileName_oid_inj by blast
  then show "joinPath dir (outputFileName oid suffix t) \<noteq> joinPath dir (outputFileName oid' suffix' t')"
    using a by (simp add: slashfree_path_eq_iff)
next
  fix p assume "splitPdfFile dir now fs inputPath oid options = (Inr outputPaths, fs1)"
    and "p \<in> set outputPaths"
  then show "\<exists>sfx k. p = joinPath dir (outputFileName oid sfx (now k))"
    by (rule split_paths_named)
next
  assume "mergePdfFiles dir t fs inputFiles_arg oid = (Inr outputPath, fs2)"
  then show "outputPath = joinPath dir (outputFileName oid MergedOut t)"
    by (rule merge_path_named)
qed

text \<open>
  The operations \<open>7b1e\<close> and \<open>7b1e_page_1\<close>, and a one-page document split and
  an empty list of files merged under the first of them.
\<close>

theorem output_names_embed_operation_witness:
  "(\<exists>pre post. outputFileName ''7b1e'' (PageOut 1) 1700000000000 = pre @ ''7b1e'' @ post)
   \<and> outputFileName ''7b1e'' (PageOut 1) 1700000000000
       \<noteq> outputFileName ''7b1e_page_1'' MergedOut 1700000000001
   \<and> joinPath ''processed'' (outputFileName ''7b1e'' (PageOut 1) 1700000000000)
       \<noteq> joinPath ''processed'' (outputFileName ''7b1e_page_1'' MergedOut 1700000000001)
   \<and> (\<exists>sfx. ''processed/split_7b1e_page_1_1700000000000.pdf''
               = joinPath ''processed'' (outputFileName ''7b1e'' sfx 1700000000000))
   \<and> ''processed/merged_7b1e_1700000000000.pdf''
       = joinPath ''processed'' (outputFileName ''7b1e'' MergedOut 1700000000000)"
proof -
  let ?fs = "[''uploads/in.pdf'' \<mapsto> map Page ''a'']"
  let ?opts = "\<lparr>splitType = ''pages'', pageRanges = RangeArray [], pagesPerFile = 1\<rparr>"
  let ?P = "''processed/split_7b1e_page_1_1700000000000.pdf''"
  let ?M = "''processed/merged_7b1e_1700000000000.pdf''"
  have sp: "splitPdfFile ''processed'' (\<lambda>i. 1700000000000) ?fs ''uploads/in.pdf'' ''7b1e'' ?opts
              = (Inr [?P], ?fs(?P \<mapsto> map Page ''a''))"
    by (simp add: splitPdfFile_def splitLoop_def pagesCase_def copyPages_def pdfSave_def
        outputFileName_def natToString.simps digitChar_def joinPath_def normalize_def
        joinSegments_def writeFile_def upt_rec Let_def)
  have mg: "mergePdfFiles ''processed'' 1700000000000 ?fs [] ''7b1e''
              = (Inr ?M, ?fs(?M \<mapsto> [BlankPage]))"
    by (simp add: mergePdfFiles_def sortByOrder_def pdfSave_def
        outputFileName_def natToString.simps digitChar_def joinPath_def normalize_def
        joinSegments_def writeFile_def Let_def)
  note t = output_names_embed_operation
    [of "''7b1e''" "PageOut 1" 1700000000000 "''7b1e_page_1''" MergedOut 1700000000001
        "''processed''" "\<lambda>i. 1700000000000" ?fs "''uploads/in.pdf''" ?opts "[?P]"
        "?fs(?P \<mapsto> map Page ''a'')" "[]" ?M "?fs(?M \<mapsto> [BlankPage])"]
  have ne: "''7b1e'' \<noteq> ''7b1e_page_1''" by simp
  have sl: "CHR ''/'' \<notin> set ''7b1e''" "CHR ''/'' \<notin> set ''7b1e_page_1''" by simp_all
  from t have 1: "\<exists>pre post. outputFileName ''7b1e'' (PageOut 1) 1700000000000 = pre @ ''7b1e'' @ post"
    by (rule conjunct1)
  from t ne have 2: "outputFileName ''7b1e'' (PageOut 1) 1700000000000
       \<noteq> outputFileName ''7b1e_page_1'' MergedOut 1700000000001"
    by blast
  from t ne sl have 3: "joinPath ''processed'' (outputFileName ''7b1e'' (PageOut 1) 1700000000000)
       \<noteq> joinPath ''processed'' (outputFileName ''7b1e_page_1'' MergedOut 1700000000001)"
    by blast
  from t sp have "\<forall>p\<in>set [?P]. \<exists>sfx k. p = joinPath ''processed'' (outputFileName ''7b1e'' sfx ((\<lambda>i. 1700000000000) (k::nat)))"
    by blast
  then have 4: "\<exists>sfx. ?P = joinPath ''processed'' (outputFileName ''7b1e'' sfx 1700000000000)"
    by simp
  from t mg have 5: "?M = joinPath ''processed'' (outputFileName ''7b1e'' MergedOut 1700000000000)"
    by blast
  show ?thesis using 1 2 3 4 5 by blast
qed

text \<open>
  The claim as stated fails: the same operation and suffix, named one millisecond apart,
  give two different file names.
\<close>

theorem output_name_depends_on_clock:
  "outputFileName ''7b1e'' (PageOut 1) 1700000000000 \<noteq> outputFileName ''7b1e'' (PageOut 1) 1700000000001"
  by (simp add: outputFileName_def natToString.simps digitChar_def)

end
